theory Spec2Isabelle
  imports
    Main
    "HOL-Library.Word"
    "HOL-Library.AList"
    "HOL-Library.Char_ord"
    "HOL-Library.List_Lexorder"
begin

unbundle bit_operations_syntax

section \<open>Identity helpers of binary.go\<close>

subsection \<open>crypto/sha256\<close>

text \<open>
  \<^verbatim>\<open>sha256.Sum256\<close> of the Go standard library (FIPS 180-4): the message is padded with
  \<^verbatim>\<open>0x80\<close>, zeros and its length in bits as a big-endian 64-bit integer, cut into blocks
  of 64 bytes, and each block is folded into eight 32-bit registers.
\<close>

type_synonym byte = "8 word"
type_synonym u32 = "32 word"

definition K256 :: "u32 list" where
  "K256 = [
    0x428A2F98, 0x71374491, 0xB5C0FBCF, 0xE9B5DBA5, 0x3956C25B, 0x59F111F1, 0x923F82A4, 0xAB1C5ED5,
    0xD807AA98, 0x12835B01, 0x243185BE, 0x550C7DC3, 0x72BE5D74, 0x80DEB1FE, 0x9BDC06A7, 0xC19BF174,
    0xE49B69C1, 0xEFBE4786, 0x0FC19DC6, 0x240CA1CC, 0x2DE92C6F, 0x4A7484AA, 0x5CB0A9DC, 0x76F988DA,
    0x983E5152, 0xA831C66D, 0xB00327C8, 0xBF597FC7, 0xC6E00BF3, 0xD5A79147, 0x06CA6351, 0x14292967,
    0x27B70A85, 0x2E1B2138, 0x4D2C6DFC, 0x53380D13, 0x650A7354, 0x766A0ABB, 0x81C2C92E, 0x92722C85,
    0xA2BFE8A1, 0xA81A664B, 0xC24B8B70, 0xC76C51A3, 0xD192E819, 0xD6990624, 0xF40E3585, 0x106AA070,
    0x19A4C116, 0x1E376C08, 0x2748774C, 0x34B0BCB5, 0x391C0CB3, 0x4ED8AA4A, 0x5B9CCA4F, 0x682E6FF3,
    0x748F82EE, 0x78A5636F, 0x84C87814, 0x8CC70208, 0x90BEFFFA, 0xA4506CEB, 0xBEF9A3F7, 0xC67178F2]"

definition init256 :: "u32 list" where
  "init256 = [0x6A09E667, 0xBB67AE85, 0x3C6EF372, 0xA54FF53A,
              0x510E527F, 0x9B05688C, 0x1F83D9AB, 0x5BE0CD19]"

definition be32 :: "byte list \<Rightarrow> u32" where
  "be32 bs = foldl (\<lambda>acc b. push_bit 8 acc OR ucast b) 0 bs"

fun chunks :: "nat \<Rightarrow> 'a list \<Rightarrow> 'a list list" where
  "chunks 0 xs = []"
| "chunks (Suc n) [] = []"
| "chunks (Suc n) (x # xs) = take (Suc n) (x # xs) # chunks (Suc n) (drop n xs)"

definition putUint64 :: "64 word \<Rightarrow> byte list" where
  "putUint64 n = map (\<lambda>i. ucast (drop_bit (8 * (7 - i)) n)) [0..<8]"

definition putUint32 :: "u32 \<Rightarrow> byte list" where
  "putUint32 n = map (\<lambda>i. ucast (drop_bit (8 * (3 - i)) n)) [0..<4]"

definition pad256 :: "byte list \<Rightarrow> byte list" where
  "pad256 msg =
     (let len = length msg;
          t = len mod 64;
          z = (if t < 56 then 56 - t else 64 + 56 - t)
      in msg @ (0x80 # replicate (z - 1) 0) @ putUint64 (push_bit 3 (of_nat len)))"

fun schedule :: "nat \<Rightarrow> u32 list \<Rightarrow> u32 list" where
  "schedule 0 w = w"
| "schedule (Suc n) w =
     (let i = length w;
          v1 = w ! (i - 2);
          t1 = word_rotr 17 v1 XOR word_rotr 19 v1 XOR drop_bit 10 v1;
          v2 = w ! (i - 15);
          t2 = word_rotr 7 v2 XOR word_rotr 18 v2 XOR drop_bit 3 v2
      in schedule n (w @ [t1 + w ! (i - 7) + t2 + w ! (i - 16)]))"

type_synonym regs = "u32 \<times> u32 \<times> u32 \<times> u32 \<times> u32 \<times> u32 \<times> u32 \<times> u32"

fun round256 :: "regs \<Rightarrow> u32 \<times> u32 \<Rightarrow> regs" where
  "round256 (a, b, c, d, e, f, g, h) (k, w) =
     (let t1 = h + (word_rotr 6 e XOR word_rotr 11 e XOR word_rotr 25 e)
                 + ((e AND f) XOR (NOT e AND g)) + k + w;
          t2 = (word_rotr 2 a XOR word_rotr 13 a XOR word_rotr 22 a)
                 + ((a AND b) XOR (a AND c) XOR (b AND c))
      in (t1 + t2, a, b, c, d + t1, e, f, g))"

fun block256 :: "u32 list \<Rightarrow> byte list \<Rightarrow> u32 list" where
  "block256 [h0, h1, h2, h3, h4, h5, h6, h7] p =
     (let w = schedule 48 (map be32 (chunks 4 p));
          (a, b, c, d, e, f, g, h) =
             foldl round256 (h0, h1, h2, h3, h4, h5, h6, h7) (zip K256 w)
      in [h0 + a, h1 + b, h2 + c, h3 + d, h4 + e, h5 + f, h6 + g, h7 + h])"
| "block256 hs p = hs"

definition Sum256 :: "byte list \<Rightarrow> byte list" where
  "Sum256 data = concat (map putUint32 (foldl block256 init256 (chunks 64 (pad256 data))))"

subsection \<open>fmt.Sprintf("%x", ...) on a byte array\<close>

definition hexdigit :: "nat \<Rightarrow> char" where
  "hexdigit n = ''0123456789abcdef'' ! (n mod 16)"

definition sprintf_x :: "byte list \<Rightarrow> string" where
  "sprintf_x bs = concat (map (\<lambda>b. [hexdigit (unat b div 16), hexdigit (unat b mod 16)]) bs)"

subsection \<open>pluginIDFromName and pathFromName\<close>

text \<open>
  A Go string is a sequence of bytes (the UTF-8 encoding of its text), and so is an
  Isabelle \<^typ>\<open>string\<close>; \<^verbatim>\<open>[]byte(name)\<close> reads the bytes off.

  \<^verbatim>\<open>
  func pluginIDFromName(name string) string {
      sum := sha256.Sum256([]byte(name))
      return fmt.Sprintf("%x", sum)
  }
  \<close>
\<close>

definition pluginIDFromName :: "string \<Rightarrow> string" where
  "pluginIDFromName name = (let sum = Sum256 (map of_char name) in sprintf_x sum)"

text \<open>
  \<^verbatim>\<open>filepath.FromSlash\<close> replaces each slash by the host separator; singularity runs on
  Linux, where the separator is the slash itself.
\<close>

definition Separator :: char where
  "Separator = CHR ''/''"

definition FromSlash :: "string \<Rightarrow> string" where
  "FromSlash p = (if Separator = CHR ''/'' then p
                  else map (\<lambda>c. if c = CHR ''/'' then Separator else c) p)"

definition pathFromName :: "string \<Rightarrow> string" where
  "pathFromName name = FromSlash name"

section \<open>What the package reads and writes\<close>

subsection \<open>Images, manifests and metadata records\<close>

text \<open>
  Modelled from the spec: the declaration of \<^verbatim>\<open>pluginapi.Manifest\<close> is not in
  binary.go. A manifest holds at least the declared name of the plugin, the one field
  binary.go reads.
\<close>

record Manifest =
  manifestName :: string

text \<open>
  \<^verbatim>\<open>sif.FileImage\<close>, a loaded container, as far as this package looks into it: whether
  it carries the plugin descriptor, the manifest stored with it, and the binary object.
\<close>

record FileImage =
  pluginMarker :: bool
  pluginManifest :: Manifest
  pluginObject :: string

text \<open>
  Modelled from the spec: the declaration of \<^verbatim>\<open>Meta\<close> is not in binary.go, which
  builds it as \<^verbatim>\<open>&Meta{Name: name, Enabled: true, sifFile: &sifFile}\<close>. The name and
  the flag are what is written to disk; \<^verbatim>\<open>sifFile\<close> is the pointer to the loaded
  image, nil in a record read back from disk.
\<close>

record Meta =
  Name :: string
  Enabled :: bool
  sifFile :: "FileImage option"

text \<open>
  What a regular file holds: a serialized metadata record (its name and flag), a
  container image, or any other bytes. Reading a metadata record out of a file of the
  other two kinds fails, and so does loading a container from anything but an image.
\<close>

datatype content =
    MetaJSON string bool
  | SIF FileImage
  | Bytes string

subsection \<open>The file system\<close>

text \<open>
  A node is found under the list of the names that lead to it from \<^verbatim>\<open>/\<close>. The file
  system is an association list from such paths to nodes; \<^verbatim>\<open>/\<close> itself, the empty
  path, is always a directory.
\<close>

type_synonym path = "string list"

datatype node = File content | Dir

type_synonym fsys = "(path \<times> node) list"

datatype errno = ENOENT | ENOTDIR | EISDIR | ENOTEMPTY

datatype error =
    PathError string string errno \<comment> \<open>\<^verbatim>\<open>os.PathError{Op, Path, Err}\<close>\<close>
  | ErrBadPattern \<comment> \<open>\<^verbatim>\<open>filepath.ErrBadPattern\<close>\<close>
  | ErrNotSIF string \<comment> \<open>\<^verbatim>\<open>sif.LoadContainer\<close> on a file that is no container\<close>
  | ErrNilImage \<comment> \<open>a record without a loaded image asked to install itself\<close>
  | NotFound string \<comment> \<open>no metadata record can be read from the named file\<close>
  | NotAPlugin \<comment> \<open>\<^verbatim>\<open>fmt.Errorf("not a valid plugin")\<close>\<close>
  | LoadError error \<comment> \<open>\<^verbatim>\<open>fmt.Errorf("could not load plugin: %w", err)\<close>\<close>
  | InstallError error \<comment> \<open>\<^verbatim>\<open>fmt.Errorf("could not install plugin: %w", err)\<close>\<close>
  | ListError string \<comment> \<open>\<^verbatim>\<open>fmt.Errorf("cannot list plugins in directory %q", rootDir)\<close>\<close>

datatype FileMode = ModeRegular | ModeDir

text \<open>
  The configuration the package is built with: \<^verbatim>\<open>rootDir\<close>, held as the names of the
  absolute, clean path it is; the working directory of the process, which relative
  path names given by the caller start from; and the names of the three files an
  installation keeps in its directory, which the specification leaves open.
\<close>

record env =
  rootDir :: path
  cwd :: path
  nameImage :: string
  nameBinary :: string
  nameConfig :: string

fun splitSlash :: "string \<Rightarrow> string list" where
  "splitSlash [] = [[]]"
| "splitSlash (c # cs) =
     (if c = CHR ''/'' then [] # splitSlash cs
      else (case splitSlash cs of [] \<Rightarrow> [[c]] | w # ws \<Rightarrow> (c # w) # ws))"

definition pathString :: "path \<Rightarrow> string" where
  "pathString p = (if p = [] then ''/'' else concat (map (\<lambda>c. CHR ''/'' # c) p))"

definition lookup :: "fsys \<Rightarrow> path \<Rightarrow> node option" where
  "lookup fs p = (if p = [] then Some Dir else map_of fs p)"

text \<open>
  One step of a path: an empty name and \<^verbatim>\<open>.\<close> stay, \<^verbatim>\<open>..\<close> goes up (and stays at
  \<^verbatim>\<open>/\<close>), any other name goes down.
\<close>

definition step :: "path \<Rightarrow> string \<Rightarrow> path" where
  "step cur c = (if c = [] \<or> c = ''.'' then cur
                 else if c = ''..'' then butlast cur
                 else cur @ [c])"

text \<open>
  Path resolution as the kernel does it: every name is looked up in the directory
  reached so far, which has to exist and to be a directory.
\<close>

fun walk :: "fsys \<Rightarrow> path \<Rightarrow> string list \<Rightarrow> errno + path" where
  "walk fs cur [] = Inr cur"
| "walk fs cur (c # cs) =
     (case lookup fs cur of
        None \<Rightarrow> Inl ENOENT
      | Some (File _) \<Rightarrow> Inl ENOTDIR
      | Some Dir \<Rightarrow> walk fs (step cur c) cs)"

definition startDir :: "env \<Rightarrow> string \<Rightarrow> path" where
  "startDir env name = (if hd name = CHR ''/'' then [] else cwd env)"

definition resolve :: "env \<Rightarrow> fsys \<Rightarrow> string \<Rightarrow> errno + path" where
  "resolve env fs name =
     (if name = [] then Inl ENOENT
      else walk fs (startDir env name) (splitSlash name))"

definition os_Stat :: "env \<Rightarrow> fsys \<Rightarrow> string \<Rightarrow> error + FileMode" where
  "os_Stat env fs name =
     (case resolve env fs name of
        Inl e \<Rightarrow> Inl (PathError ''stat'' name e)
      | Inr p \<Rightarrow>
          (case lookup fs p of
             None \<Rightarrow> Inl (PathError ''stat'' name ENOENT)
           | Some Dir \<Rightarrow> Inr ModeDir
           | Some (File _) \<Rightarrow> Inr ModeRegular))"

fun IsNotExist :: "error \<Rightarrow> bool" where
  "IsNotExist (PathError _ _ ENOENT) = True"
| "IsNotExist _ = False"

fun IsRegular :: "FileMode \<Rightarrow> bool" where
  "IsRegular ModeRegular = True"
| "IsRegular ModeDir = False"

definition os_ReadFile :: "env \<Rightarrow> fsys \<Rightarrow> string \<Rightarrow> error + content" where
  "os_ReadFile env fs name =
     (case resolve env fs name of
        Inl e \<Rightarrow> Inl (PathError ''open'' name e)
      | Inr p \<Rightarrow>
          (case lookup fs p of
             None \<Rightarrow> Inl (PathError ''open'' name ENOENT)
           | Some Dir \<Rightarrow> Inl (PathError ''read'' name EISDIR)
           | Some (File c) \<Rightarrow> Inr c))"

text \<open>Create or truncate a file and write it.\<close>

definition os_WriteFile :: "env \<Rightarrow> fsys \<Rightarrow> string \<Rightarrow> content \<Rightarrow> error + fsys" where
  "os_WriteFile env fs name c =
     (case resolve env fs name of
        Inl e \<Rightarrow> Inl (PathError ''open'' name e)
      | Inr p \<Rightarrow>
          (case lookup fs p of
             Some Dir \<Rightarrow> Inl (PathError ''open'' name EISDIR)
           | _ \<Rightarrow> Inr (AList.update p (File c) fs)))"

fun mkdirs :: "fsys \<Rightarrow> path \<Rightarrow> string list \<Rightarrow> errno + fsys" where
  "mkdirs fs cur [] = Inr fs"
| "mkdirs fs cur (c # cs) =
     (let p = step cur c
      in case lookup fs p of
           None \<Rightarrow> mkdirs (AList.update p Dir fs) p cs
         | Some Dir \<Rightarrow> mkdirs fs p cs
         | Some (File _) \<Rightarrow> Inl ENOTDIR)"

definition os_MkdirAll :: "env \<Rightarrow> fsys \<Rightarrow> string \<Rightarrow> error + fsys" where
  "os_MkdirAll env fs name =
     (if name = [] then Inl (PathError ''mkdir'' name ENOENT)
      else case mkdirs fs (startDir env name) (splitSlash name) of
             Inl e \<Rightarrow> Inl (PathError ''mkdir'' name e)
           | Inr fs' \<Rightarrow> Inr fs')"

definition children :: "fsys \<Rightarrow> path \<Rightarrow> path list" where
  "children fs dir = filter (\<lambda>p. p \<noteq> [] \<and> butlast p = dir) (map fst fs)"

definition os_Remove :: "env \<Rightarrow> fsys \<Rightarrow> string \<Rightarrow> error + fsys" where
  "os_Remove env fs name =
     (case resolve env fs name of
        Inl e \<Rightarrow> Inl (PathError ''remove'' name e)
      | Inr p \<Rightarrow>
          (case lookup fs p of
             None \<Rightarrow> Inl (PathError ''remove'' name ENOENT)
           | Some (File _) \<Rightarrow> Inr (AList.delete p fs)
           | Some Dir \<Rightarrow>
               if p = [] \<or> children fs p \<noteq> [] then Inl (PathError ''remove'' name ENOTEMPTY)
               else Inr (AList.delete p fs)))"

text \<open>
  The names a directory lists: a directory entry is a non-empty name other than
  \<^verbatim>\<open>.\<close> and \<^verbatim>\<open>..\<close> and holds no slash.
\<close>

definition validName :: "string \<Rightarrow> bool" where
  "validName c \<longleftrightarrow> c \<noteq> [] \<and> c \<noteq> ''.'' \<and> c \<noteq> ''..'' \<and> CHR ''/'' \<notin> set c"

definition Readdirnames :: "fsys \<Rightarrow> path \<Rightarrow> string list" where
  "Readdirnames fs dir = remdups (filter validName (map last (children fs dir)))"

subsection \<open>path/filepath\<close>

text \<open>
  \<^verbatim>\<open>filepath.Join(rootDir, elem...)\<close>: the elements are joined with slashes and the
  result is cleaned. Under an absolute clean directory, cleaning drops empty names and
  \<^verbatim>\<open>.\<close>, and lets \<^verbatim>\<open>..\<close> remove the name before it, or nothing at \<^verbatim>\<open>/\<close>.
\<close>

definition JoinPath :: "path \<Rightarrow> string list \<Rightarrow> path" where
  "JoinPath dir elems = foldl step dir (concat (map splitSlash elems))"

definition Join :: "path \<Rightarrow> string list \<Rightarrow> string" where
  "Join dir elems = pathString (JoinPath dir elems)"

definition hasMeta :: "string \<Rightarrow> bool" where
  "hasMeta p = list_ex (\<lambda>c. c \<in> set [CHR ''*'', CHR ''?'', CHR ''['', CHR 0x5C]) p"

text \<open>
  \<^verbatim>\<open>filepath.Match("*" + lit, n)\<close> for a literal \<^verbatim>\<open>lit\<close> without pattern characters: the
  star stands for any run of characters other than the slash.
\<close>

definition MatchStar :: "string \<Rightarrow> string \<Rightarrow> bool" where
  "MatchStar lit n \<longleftrightarrow>
     length lit \<le> length n
     \<and> drop (length n - length lit) n = lit
     \<and> CHR ''/'' \<notin> set (take (length n - length lit) n)"

text \<open>
  \<^verbatim>\<open>filepath.Glob(filepath.Join(dir, "*" + lit))\<close>. Glob answers with an error only for
  a malformed pattern, and ignores every error of the file system: a directory that
  cannot be read has no matches. It reads the names of the directory, sorts them, and
  keeps those the pattern matches. Pattern characters in the directory part are not
  interpreted here: a directory holding one is answered as a malformed pattern would.
\<close>

definition Glob :: "env \<Rightarrow> fsys \<Rightarrow> path \<Rightarrow> string \<Rightarrow> error + string list" where
  "Glob env fs dir lit =
     (if hasMeta (pathString dir) then Inl ErrBadPattern
      else case os_Stat env fs (pathString dir) of
             Inl _ \<Rightarrow> Inr []
           | Inr ModeRegular \<Rightarrow> Inr []
           | Inr ModeDir \<Rightarrow>
               Inr (map (\<lambda>n. Join dir [n])
                      (filter (MatchStar lit) (sort (Readdirnames fs (JoinPath dir []))))))"

subsection \<open>github.com/sylabs/sif\<close>

text \<open>
  \<^verbatim>\<open>sif.LoadContainer(filename, rdonly)\<close> opens the file and reads the container out of
  it; it writes nothing.
\<close>

definition LoadContainer :: "env \<Rightarrow> fsys \<Rightarrow> string \<Rightarrow> bool \<Rightarrow> error + FileImage" where
  "LoadContainer env fs filename rdonly =
     (case os_ReadFile env fs filename of
        Inl e \<Rightarrow> Inl e
      | Inr (SIF img) \<Rightarrow> Inr img
      | Inr _ \<Rightarrow> Inl (ErrNotSIF filename))"

subsection \<open>sylog\<close>

text \<open>
  Modelled from the spec: \<^verbatim>\<open>sylog\<close> is not under the sources. The logger is a leveled
  sink that never affects control flow; a message is kept as its format and arguments.
\<close>

datatype arg = S string | M Meta | E error

datatype logentry = LogDebug string "arg list" | LogInfo string "arg list"

record world =
  disk :: fsys
  sylog :: "logentry list"

definition Debugf :: "string \<Rightarrow> arg list \<Rightarrow> world \<Rightarrow> world" where
  "Debugf format args w = w\<lparr>sylog := sylog w @ [LogDebug format args]\<rparr>"

definition Infof :: "string \<Rightarrow> arg list \<Rightarrow> world \<Rightarrow> world" where
  "Infof format args w = w\<lparr>sylog := sylog w @ [LogInfo format args]\<rparr>"

section \<open>The image adapter and the metadata record\<close>

text \<open>
  Modelled from the spec: \<^verbatim>\<open>newSifFileImageReader\<close> is not in binary.go. The image
  adapter wraps the container handle and only reads the state of the opened image.
\<close>

definition newSifFileImageReader :: "FileImage \<Rightarrow> FileImage" where
  "newSifFileImageReader fimg = fimg"

text \<open>
  Modelled from the spec: \<^verbatim>\<open>isPluginFile\<close> is not in binary.go. It tells whether the
  image contains the recognized plugin descriptor section, and answers false, without
  an error, for a well-formed image that is no plugin.
\<close>

definition isPluginFile :: "FileImage \<Rightarrow> bool" where
  "isPluginFile sr = pluginMarker sr"

text \<open>
  Modelled from the spec: \<^verbatim>\<open>getManifest\<close> is not in binary.go. It returns the manifest
  embedded in the image, verbatim.
\<close>

definition getManifest :: "FileImage \<Rightarrow> Manifest" where
  "getManifest sr = pluginManifest sr"

text \<open>
  Modelled from the spec: the methods of \<^verbatim>\<open>Meta\<close> that name its files are not in
  binary.go. The fragment is the plugin name as a relative path under the registry
  root; the installation keeps the copied image, the extracted binary object and the
  default configuration file under the fragment's path.
\<close>

definition baseDir :: "env \<Rightarrow> Meta \<Rightarrow> string" where
  "baseDir env m = Join (rootDir env) [pathFromName (Name m)]"

text \<open>
  Modelled from the spec: \<^verbatim>\<open>imageName\<close> is not in binary.go. It returns the absolute
  path of the installed copy of the image.
\<close>

definition imageName :: "env \<Rightarrow> Meta \<Rightarrow> string" where
  "imageName env m = Join (rootDir env) [pathFromName (Name m), nameImage env]"

text \<open>
  Modelled from the spec: the path of the extracted binary object is not in binary.go;
  the object lies under the fragment's installation path.
\<close>

definition binaryName :: "env \<Rightarrow> Meta \<Rightarrow> string" where
  "binaryName env m = Join (rootDir env) [pathFromName (Name m), nameBinary env]"

text \<open>
  Modelled from the spec: the path of the generated default configuration file is not
  in binary.go; the file lies alongside the binary object.
\<close>

definition configName :: "env \<Rightarrow> Meta \<Rightarrow> string" where
  "configName env m = Join (rootDir env) [pathFromName (Name m), nameConfig env]"

text \<open>
  Modelled from the spec: the path of the metadata file is not in binary.go. The
  persisted layout names it \<^verbatim>\<open><fragment>.meta\<close> under the registry root, the fragment
  being the plugin name as a relative path; the path is recomputed from \<^verbatim>\<open>Name\<close>.
\<close>

definition metaName :: "env \<Rightarrow> Meta \<Rightarrow> string" where
  "metaName env m = Join (rootDir env) [pathFromName (Name m) @ ''.meta'']"

text \<open>
  Modelled from the spec: \<^verbatim>\<open>loadMetaByFilename\<close> is not in binary.go. It loads the
  record from a metadata file; a file that is absent, unreadable or does not parse
  gives no record.
\<close>

definition loadMetaByFilename :: "env \<Rightarrow> fsys \<Rightarrow> string \<Rightarrow> error + Meta" where
  "loadMetaByFilename env fs filename =
     (case os_ReadFile env fs filename of
        Inr (MetaJSON n e) \<Rightarrow> Inr \<lparr>Name = n, Enabled = e, sifFile = None\<rparr>
      | _ \<Rightarrow> Inl (NotFound filename))"

text \<open>
  Modelled from the spec: \<^verbatim>\<open>loadMetaByName\<close> is not in binary.go. It resolves a record
  by name, through the metadata file that the name derives, with \<^verbatim>\<open>NotFound\<close> when the
  record is absent or unreadable.
\<close>

definition loadMetaByName :: "env \<Rightarrow> fsys \<Rightarrow> string \<Rightarrow> error + Meta" where
  "loadMetaByName env fs name =
     loadMetaByFilename env fs (metaName env \<lparr>Name = name, Enabled = False, sifFile = None\<rparr>)"

text \<open>
  Modelled from the spec: \<^verbatim>\<open>Meta.install\<close> is not in binary.go. In order: (a) create
  the missing directories of the fragment path; (b) copy the source image verbatim;
  (c) extract the binary object; (d) write the default configuration file alongside
  it; (e) serialize name and flag to the metadata file. It stops at the first step that
  fails and rolls nothing back, so the metadata file is written only after (a) to (d).
\<close>

definition install :: "env \<Rightarrow> Meta \<Rightarrow> fsys \<Rightarrow> error option \<times> fsys" where
  "install env m fs0 =
     (case sifFile m of
        None \<Rightarrow> (Some ErrNilImage, fs0)
      | Some fimg \<Rightarrow>
     (case os_MkdirAll env fs0 (baseDir env m) of
        Inl err \<Rightarrow> (Some err, fs0)
      | Inr fs1 \<Rightarrow>
     (case os_WriteFile env fs1 (imageName env m) (SIF fimg) of
        Inl err \<Rightarrow> (Some err, fs1)
      | Inr fs2 \<Rightarrow>
     (case os_WriteFile env fs2 (binaryName env m) (Bytes (pluginObject fimg)) of
        Inl err \<Rightarrow> (Some err, fs2)
      | Inr fs3 \<Rightarrow>
     (case os_WriteFile env fs3 (configName env m) (Bytes []) of
        Inl err \<Rightarrow> (Some err, fs3)
      | Inr fs4 \<Rightarrow>
     (case os_WriteFile env fs4 (metaName env m) (MetaJSON (Name m) (Enabled m)) of
        Inl err \<Rightarrow> (Some err, fs4)
      | Inr fs5 \<Rightarrow> (None, fs5)))))))"

text \<open>
  Modelled from the spec: the removal that \<^verbatim>\<open>Meta.uninstall\<close> needs, for which a
  missing file is not fatal.
\<close>

definition removeIfPresent :: "env \<Rightarrow> fsys \<Rightarrow> string \<Rightarrow> error + fsys" where
  "removeIfPresent env fs name =
     (case os_Remove env fs name of
        Inl err \<Rightarrow> if IsNotExist err then Inr fs else Inl err
      | Inr fs' \<Rightarrow> Inr fs')"

text \<open>
  Modelled from the spec: \<^verbatim>\<open>Meta.uninstall\<close> is not in binary.go. It removes the
  metadata file, the image copy and the extracted binary object, keyed by the record's
  own name; a missing file is not fatal.
\<close>

definition uninstall :: "env \<Rightarrow> Meta \<Rightarrow> fsys \<Rightarrow> error option \<times> fsys" where
  "uninstall env m fs0 =
     (case removeIfPresent env fs0 (metaName env m) of
        Inl err \<Rightarrow> (Some err, fs0)
      | Inr fs1 \<Rightarrow>
     (case removeIfPresent env fs1 (imageName env m) of
        Inl err \<Rightarrow> (Some err, fs1)
      | Inr fs2 \<Rightarrow>
     (case removeIfPresent env fs2 (binaryName env m) of
        Inl err \<Rightarrow> (Some err, fs2)
      | Inr fs3 \<Rightarrow> (None, fs3))))"

text \<open>
  Modelled from the spec: rewriting the metadata file of a record, the step that
  \<^verbatim>\<open>Meta.enable\<close> and \<^verbatim>\<open>Meta.disable\<close> share.
\<close>

definition save :: "env \<Rightarrow> Meta \<Rightarrow> fsys \<Rightarrow> error option \<times> fsys" where
  "save env m fs0 =
     (case os_WriteFile env fs0 (metaName env m) (MetaJSON (Name m) (Enabled m)) of
        Inl err \<Rightarrow> (Some err, fs0)
      | Inr fs1 \<Rightarrow> (None, fs1))"

text \<open>
  Modelled from the spec: \<^verbatim>\<open>Meta.enable\<close> is not in binary.go. It sets the flag and
  rewrites the metadata file; whether the flag was set already is the caller's matter.
\<close>

definition enable :: "env \<Rightarrow> Meta \<Rightarrow> fsys \<Rightarrow> error option \<times> fsys" where
  "enable env m fs0 = save env (m\<lparr>Enabled := True\<rparr>) fs0"

text \<open>
  Modelled from the spec: \<^verbatim>\<open>Meta.disable\<close> is not in binary.go. It clears the flag
  and rewrites the metadata file.
\<close>

definition disable :: "env \<Rightarrow> Meta \<Rightarrow> fsys \<Rightarrow> error option \<times> fsys" where
  "disable env m fs0 = save env (m\<lparr>Enabled := False\<rparr>) fs0"

section \<open>The registry operations of binary.go\<close>

text \<open>
  Every operation takes the world (the file system and the log) and returns what the Go
  function returns together with the world it leaves. The deferred
  \<^verbatim>\<open>UnloadContainer\<close> of Install and Inspect closes the image and changes neither.
\<close>

definition Install :: "env \<Rightarrow> string \<Rightarrow> string \<Rightarrow> world \<Rightarrow> error option \<times> world" where
  "Install env sifPath name w0 =
     (let w = Debugf ''Installing plugin from SIF to %q'' [S (pathString (rootDir env))] w0
      in case LoadContainer env (disk w) sifPath True of
           Inl err \<Rightarrow> (Some (LoadError err), w)
         | Inr fimg \<Rightarrow>
             (let sr = newSifFileImageReader fimg
              in if \<not> isPluginFile sr then (Some NotAPlugin, w)
                 else
                   (let manifest = getManifest sr;
                        name = (if name = [] then manifestName manifest else name);
                        m = \<lparr>Name = name, Enabled = True, sifFile = Some fimg\<rparr>
                    in case install env m (disk w) of
                         (Some err, fs') \<Rightarrow> (Some (InstallError err), w\<lparr>disk := fs'\<rparr>)
                       | (None, fs') \<Rightarrow> (None, w\<lparr>disk := fs'\<rparr>))))"

definition Uninstall :: "env \<Rightarrow> string \<Rightarrow> world \<Rightarrow> error option \<times> world" where
  "Uninstall env name w0 =
     (let w = Debugf ''Uninstalling plugin %q from %q'' [S name, S (pathString (rootDir env))] w0
      in case loadMetaByName env (disk w) name of
           Inl err \<Rightarrow> (Some err, w)
         | Inr meta \<Rightarrow>
             (let w = Debugf ''Found plugin %q, meta=%#v'' [S name, M meta] w
              in case uninstall env meta (disk w) of
                   (err, fs') \<Rightarrow> (err, w\<lparr>disk := fs'\<rparr>)))"

fun List_loop :: "env \<Rightarrow> string list \<Rightarrow> Meta list \<Rightarrow> world \<Rightarrow> Meta list \<times> world" where
  "List_loop env [] metas w = (metas, w)"
| "List_loop env (entry # entries) metas w =
     (case os_Stat env (disk w) entry of
        Inl err \<Rightarrow>
          List_loop env entries metas
            (Debugf (''Error stating %s: %s. Skip'' @ [CHR 0x0A]) [S entry, E err] w)
      | Inr fi \<Rightarrow>
          if \<not> IsRegular fi then List_loop env entries metas w
          else
            (case loadMetaByFilename env (disk w) entry of
               Inl err \<Rightarrow>
                 List_loop env entries metas
                   (Debugf ''Error loading %s: %s. Skip'' [S entry, E err] w)
             | Inr meta \<Rightarrow> List_loop env entries (metas @ [meta]) w))"

definition List :: "env \<Rightarrow> world \<Rightarrow> (error + Meta list) \<times> world" where
  "List env w =
     (case Glob env (disk w) (rootDir env) ''.meta'' of
        Inl err \<Rightarrow> (Inl (ListError (pathString (rootDir env))), w)
      | Inr entries \<Rightarrow>
          (case List_loop env entries [] w of (metas, w') \<Rightarrow> (Inr metas, w')))"

definition Enable :: "env \<Rightarrow> string \<Rightarrow> world \<Rightarrow> error option \<times> world" where
  "Enable env name w0 =
     (let w = Debugf ''Enabling plugin %q in %q'' [S name, S (pathString (rootDir env))] w0
      in case loadMetaByName env (disk w) name of
           Inl err \<Rightarrow> (Some err, w)
         | Inr meta \<Rightarrow>
             (let w = Debugf ''Found plugin %q, meta=%#v'' [S name, M meta] w
              in if Enabled meta
                 then (None, Infof ''Plugin %q is already enabled'' [S name] w)
                 else (case enable env meta (disk w) of
                         (err, fs') \<Rightarrow> (err, w\<lparr>disk := fs'\<rparr>))))"

definition Disable :: "env \<Rightarrow> string \<Rightarrow> world \<Rightarrow> error option \<times> world" where
  "Disable env name w0 =
     (let w = Debugf ''Disabling plugin %q in %q'' [S name, S (pathString (rootDir env))] w0
      in case loadMetaByName env (disk w) name of
           Inl err \<Rightarrow> (Some err, w)
         | Inr meta \<Rightarrow>
             (let w = Debugf ''Found plugin %q, meta=%#v'' [S name, M meta] w
              in if \<not> Enabled meta
                 then (None, Infof ''Plugin %q is already disabled'' [S name] w)
                 else (case disable env meta (disk w) of
                         (err, fs') \<Rightarrow> (err, w\<lparr>disk := fs'\<rparr>))))"

text \<open>
  Inspect writes no log and no file: it returns the manifest and the error, the
  manifest being the zero value whenever there is an error.
\<close>

definition Inspect :: "env \<Rightarrow> string \<Rightarrow> world \<Rightarrow> Manifest \<times> error option" where
  "Inspect env name w =
     (let manifest = \<lparr>manifestName = []\<rparr>;
          found =
            (case os_Stat env (disk w) name of
               Inl err \<Rightarrow>
                 if IsNotExist err then
                   (case loadMetaByName env (disk w) name of
                      Inl err \<Rightarrow> Inl err
                    | Inr meta \<Rightarrow> Inr (imageName env meta))
                 else Inl err
             | Inr _ \<Rightarrow> Inr name)
      in case found of
           Inl err \<Rightarrow> (manifest, Some err)
         | Inr name \<Rightarrow>
             (case LoadContainer env (disk w) name True of
                Inl err \<Rightarrow> (manifest, Some err)
              | Inr fimg \<Rightarrow>
                  (let r = newSifFileImageReader fimg
                   in if \<not> isPluginFile r then (manifest, Some NotAPlugin)
                      else (getManifest r, None))))"

section \<open>Notions the properties are stated with\<close>

text \<open>
  Opening a file as a plugin image: load the container, validate it, read the manifest.
  This is what the specification asks of Inspect once it knows which file to open.
\<close>

definition readPluginImage :: "env \<Rightarrow> fsys \<Rightarrow> string \<Rightarrow> Manifest \<times> error option" where
  "readPluginImage env fs file =
     (case LoadContainer env fs file True of
        Inl err \<Rightarrow> (\<lparr>manifestName = []\<rparr>, Some err)
      | Inr fimg \<Rightarrow>
          if isPluginFile fimg then (getManifest fimg, None)
          else (\<lparr>manifestName = []\<rparr>, Some NotAPlugin))"

text \<open>
  The record that a candidate entry of the listing contributes: none when the entry
  cannot be stat'ed, is not a regular file, or does not parse.
\<close>

definition entryRecord :: "env \<Rightarrow> fsys \<Rightarrow> string \<Rightarrow> Meta option" where
  "entryRecord env fs entry =
     (case os_Stat env fs entry of
        Inl _ \<Rightarrow> None
      | Inr fi \<Rightarrow>
          if \<not> IsRegular fi then None
          else (case loadMetaByFilename env fs entry of
                  Inl _ \<Rightarrow> None
                | Inr meta \<Rightarrow> Some meta))"

text \<open>
  The message that a candidate entry of the listing leaves in the log: none when the
  entry is not a regular file, and none when its record is read.
\<close>

definition entryLog :: "env \<Rightarrow> fsys \<Rightarrow> string \<Rightarrow> logentry option" where
  "entryLog env fs entry =
     (case os_Stat env fs entry of
        Inl err \<Rightarrow>
          Some (LogDebug (''Error stating %s: %s. Skip'' @ [CHR 0x0A]) [S entry, E err])
      | Inr fi \<Rightarrow>
          if \<not> IsRegular fi then None
          else (case loadMetaByFilename env fs entry of
                  Inl err \<Rightarrow> Some (LogDebug ''Error loading %s: %s. Skip'' [S entry, E err])
                | Inr meta \<Rightarrow> None))"

text \<open>
  A plugin is installed under a name when the metadata file of that name holds the
  record of that name.
\<close>

definition installed :: "env \<Rightarrow> fsys \<Rightarrow> string \<Rightarrow> Meta \<Rightarrow> bool" where
  "installed env fs name m \<longleftrightarrow> loadMetaByName env fs name = Inr m \<and> Name m = name"

text \<open>
  The registry root is an absolute clean path: its names are directory entries, and
  none holds a pattern character.
\<close>

definition cleanRoot :: "env \<Rightarrow> bool" where
  "cleanRoot env = list_all (\<lambda>c. validName c \<and> \<not> hasMeta c) (rootDir env)"

text \<open>
  The invariant of the data model on the registry root: a metadata record stored
  directly under the root lies in the file that its own name derives.
\<close>

definition storedUnderOwnName :: "env \<Rightarrow> fsys \<Rightarrow> path \<Rightarrow> bool" where
  "storedUnderOwnName env fs p =
     (case lookup fs p of
        Some (File (MetaJSON n e)) \<Rightarrow>
          metaName env \<lparr>Name = n, Enabled = e, sifFile = None\<rparr> = pathString p
      | _ \<Rightarrow> True)"

definition registryConsistent :: "env \<Rightarrow> fsys \<Rightarrow> bool" where
  "registryConsistent env fs = list_all (storedUnderOwnName env fs) (children fs (rootDir env))"

subsection \<open>SHA-256 in the words of FIPS 180-4\<close>

text \<open>
  The standard, to compare \<^verbatim>\<open>Sum256\<close> with. Section 4.1.2 gives six functions on words
  of 32 bits.
\<close>

definition fips_Ch :: "u32 \<Rightarrow> u32 \<Rightarrow> u32 \<Rightarrow> u32" where
  "fips_Ch x y z = (x AND y) XOR (NOT x AND z)"

definition fips_Maj :: "u32 \<Rightarrow> u32 \<Rightarrow> u32 \<Rightarrow> u32" where
  "fips_Maj x y z = (x AND y) XOR (x AND z) XOR (y AND z)"

definition fips_Sigma0 :: "u32 \<Rightarrow> u32" where
  "fips_Sigma0 x = word_rotr 2 x XOR word_rotr 13 x XOR word_rotr 22 x"

definition fips_Sigma1 :: "u32 \<Rightarrow> u32" where
  "fips_Sigma1 x = word_rotr 6 x XOR word_rotr 11 x XOR word_rotr 25 x"

definition fips_sigma0 :: "u32 \<Rightarrow> u32" where
  "fips_sigma0 x = word_rotr 7 x XOR word_rotr 18 x XOR drop_bit 3 x"

definition fips_sigma1 :: "u32 \<Rightarrow> u32" where
  "fips_sigma1 x = word_rotr 17 x XOR word_rotr 19 x XOR drop_bit 10 x"

text \<open>
  Section 5.1.1: the message is followed by the bit 1, by \<open>k\<close> zero bits, \<open>k\<close> being the
  smallest number that brings the length to 448 modulo 512, and by the length of the
  message in bits as a number of 64 bits. In bytes: the byte \<^verbatim>\<open>0x80\<close>, the smallest
  number of zero bytes that brings the length to 56 modulo 64, and eight bytes, the
  most significant first.
\<close>

definition fips_pad :: "byte list \<Rightarrow> byte list" where
  "fips_pad msg =
     msg @ [0x80] @ replicate (LEAST k. (length msg + 1 + k) mod 64 = 56) 0
         @ map (\<lambda>j. of_nat ((8 * length msg) mod 2 ^ 64 div 2 ^ (8 * (7 - j)) mod 256)) [0..<8]"

text \<open>
  Section 5.2.1: the padded message is parsed into blocks of 512 bits, each block into
  sixteen words of 32 bits, the most significant byte first. \<open>fips_word p k\<close> is the
  word at byte \<open>k\<close>.
\<close>

definition fips_word :: "byte list \<Rightarrow> nat \<Rightarrow> u32" where
  "fips_word p k =
     of_nat (unat (p ! k) * 2 ^ 24 + unat (p ! (k + 1)) * 2 ^ 16
             + unat (p ! (k + 2)) * 2 ^ 8 + unat (p ! (k + 3)))"

text \<open>Section 6.2.2, step 1: the message schedule \<open>W\<^sub>t\<close> of block \<open>i\<close>.\<close>

function fips_W :: "byte list \<Rightarrow> nat \<Rightarrow> nat \<Rightarrow> u32" where
  "fips_W p i t =
     (if t < 16 then fips_word p (64 * i + 4 * t)
      else fips_sigma1 (fips_W p i (t - 2)) + fips_W p i (t - 7)
           + fips_sigma0 (fips_W p i (t - 15)) + fips_W p i (t - 16))"
  by pat_completeness auto
termination
  by (relation "measure (\<lambda>(p, i, t). t)") auto

declare fips_W.simps [simp del]

text \<open>Step 3: the eight working variables after \<open>t\<close> rounds.\<close>

fun fips_round :: "regs \<Rightarrow> u32 \<Rightarrow> u32 \<Rightarrow> regs" where
  "fips_round (a, b, c, d, e, f, g, h) k w =
     (let T1 = h + fips_Sigma1 e + fips_Ch e f g + k + w;
          T2 = fips_Sigma0 a + fips_Maj a b c
      in (T1 + T2, a, b, c, d + T1, e, f, g))"

fun fips_vars :: "byte list \<Rightarrow> nat \<Rightarrow> regs \<Rightarrow> nat \<Rightarrow> regs" where
  "fips_vars p i r 0 = r"
| "fips_vars p i r (Suc t) = fips_round (fips_vars p i r t) (K256 ! t) (fips_W p i t)"

text \<open>Steps 2 and 4: the hash value after \<open>i\<close> blocks.\<close>

fun fips_H :: "byte list \<Rightarrow> nat \<Rightarrow> u32 list" where
  "fips_H p 0 = init256"
| "fips_H p (Suc i) =
     (let H = fips_H p i;
          (a, b, c, d, e, f, g, h) =
             fips_vars p i (H ! 0, H ! 1, H ! 2, H ! 3, H ! 4, H ! 5, H ! 6, H ! 7) 64
      in [a + H ! 0, b + H ! 1, c + H ! 2, d + H ! 3,
          e + H ! 4, f + H ! 5, g + H ! 6, h + H ! 7])"

definition fips_bytes :: "u32 \<Rightarrow> byte list" where
  "fips_bytes w = map (\<lambda>j. of_nat (unat w div 2 ^ (8 * (3 - j)) mod 256)) [0..<4]"

text \<open>The digest: the eight words of the last hash value, the most significant byte first.\<close>

definition fips_SHA256 :: "byte list \<Rightarrow> byte list" where
  "fips_SHA256 msg =
     (let p = fips_pad msg
      in concat (map fips_bytes (fips_H p (length p div 64))))"

subsection \<open>Reading a lowercase hexadecimal string\<close>

definition hexval :: "char \<Rightarrow> nat option" where
  "hexval c =
     (let n = (of_char c :: nat)
      in if 48 \<le> n \<and> n \<le> 57 then Some (n - 48)
         else if 97 \<le> n \<and> n \<le> 102 then Some (n - 87)
         else None)"

fun hexDecode :: "string \<Rightarrow> byte list option" where
  "hexDecode [] = Some []"
| "hexDecode [c] = None"
| "hexDecode (c # d # s) =
     (case hexval c of
        None \<Rightarrow> None
      | Some hi \<Rightarrow>
          (case hexval d of
             None \<Rightarrow> None
           | Some lo \<Rightarrow>
               (case hexDecode s of
                  None \<Rightarrow> None
                | Some bs \<Rightarrow> Some (of_nat (16 * hi + lo) # bs))))"

subsection \<open>A small registry to run the operations on\<close>

definition exampleEnv :: env where
  "exampleEnv = \<lparr>rootDir = [''reg''], cwd = [''home''], nameImage = ''plugin.sif'',
                  nameBinary = ''object.so'', nameConfig = ''config.yaml''\<rparr>"

definition pluginImage :: FileImage where
  "pluginImage = \<lparr>pluginMarker = True, pluginManifest = \<lparr>manifestName = ''declared''\<rparr>,
                   pluginObject = ''ELF''\<rparr>"

definition plainImage :: FileImage where
  "plainImage = \<lparr>pluginMarker = False, pluginManifest = \<lparr>manifestName = []\<rparr>,
                  pluginObject = []\<rparr>"

text \<open>An empty registry, and two images in the working directory.\<close>

definition world0 :: world where
  "world0 = \<lparr>disk = [([''reg''], Dir), ([''home''], Dir),
                      ([''home'', ''a.sif''], File (SIF pluginImage)),
                      ([''home'', ''b.sif''], File (SIF plainImage))],
             sylog = []\<rparr>"

text \<open>
  The registry with the plugin \<^verbatim>\<open>foo\<close> installed and enabled, next to a metadata file
  that does not parse and a directory whose name ends in \<^verbatim>\<open>.meta\<close>.
\<close>

definition world1 :: world where
  "world1 = \<lparr>disk = [([''reg''], Dir), ([''home''], Dir),
                      ([''home'', ''a.sif''], File (SIF pluginImage)),
                      ([''home'', ''b.sif''], File (SIF plainImage)),
                      ([''reg'', ''foo''], Dir),
                      ([''reg'', ''foo'', ''plugin.sif''], File (SIF pluginImage)),
                      ([''reg'', ''foo'', ''object.so''], File (Bytes ''ELF'')),
                      ([''reg'', ''foo'', ''config.yaml''], File (Bytes [])),
                      ([''reg'', ''foo.meta''], File (MetaJSON ''foo'' True)),
                      ([''reg'', ''bad.meta''], File (Bytes ''{'')),
                      ([''reg'', ''dir.meta''], Dir)],
             sylog = []\<rparr>"

text \<open>The same registry with \<^verbatim>\<open>foo\<close> disabled.\<close>

definition world2 :: world where
  "world2 = \<lparr>disk = [([''reg''], Dir), ([''home''], Dir),
                      ([''reg'', ''foo''], Dir),
                      ([''reg'', ''foo'', ''plugin.sif''], File (SIF pluginImage)),
                      ([''reg'', ''foo'', ''object.so''], File (Bytes ''ELF'')),
                      ([''reg'', ''foo'', ''config.yaml''], File (Bytes [])),
                      ([''reg'', ''foo.meta''], File (MetaJSON ''foo'' False))],
             sylog = []\<rparr>"

section \<open>Properties\<close>

subsection \<open>The plugin identifier\<close>

lemma length_block256: "length hs = 8 \<Longrightarrow> length (block256 hs p) = 8"
proof -
  assume "length hs = 8"
  then obtain h0 h1 h2 h3 h4 h5 h6 h7 where "hs = [h0, h1, h2, h3, h4, h5, h6, h7]"
    by (auto simp: length_Suc_conv numeral_eq_Suc)
  then show ?thesis
    by (simp add: Let_def split: prod.splits)
qed

lemma length_foldl_block256: "length hs = 8 \<Longrightarrow> length (foldl block256 hs ps) = 8"
  by (induction ps arbitrary: hs) (simp_all add: length_block256)

lemma length_concat_putUint32: "length (concat (map putUint32 ws)) = 4 * length ws"
  by (induction ws) (simp_all add: putUint32_def)

lemma length_Sum256: "length (Sum256 data) = 32"
  by (simp add: Sum256_def length_concat_putUint32 length_foldl_block256 init256_def)

lemma length_sprintf_x: "length (sprintf_x bs) = 2 * length bs"
  by (induction bs) (simp_all add: sprintf_x_def)

lemma hexdigit_lower: "hexdigit n \<in> set ''0123456789abcdef''"
  unfolding hexdigit_def by (rule nth_mem) simp

lemma set_sprintf_x: "set (sprintf_x bs) \<subseteq> set ''0123456789abcdef''"
  unfolding sprintf_x_def using hexdigit_lower by (induction bs) auto

text \<open>
  The model of SHA-256 on test vectors of the standard: the digests of \<^verbatim>\<open>abc\<close>, of
  the empty string, and of a message of 56 bytes, which is padded to two blocks.
\<close>

lemma pluginIDFromName_abc:
  "pluginIDFromName ''abc'' =
     ''ba7816bf8f01cfea414140de5dae2223b00361a396177a9cb410ff61f20015ad''"
  by code_simp

lemma pluginIDFromName_empty:
  "pluginIDFromName [] =
     ''e3b0c44298fc1c149afbf4c8996fb92427ae41e4649b934ca495991b7852b855''"
  by code_simp

lemma pluginIDFromName_two_blocks:
  "pluginIDFromName ''abcdbcdecdefdefgefghfghighijhijkijkljklmklmnlmnomnopnopq'' =
     ''248d6a61d20638b8e5c026930c3e6039a33ce45964ff2167f6ecedd419db06c1''"
  by code_simp

subsection \<open>Sum256 is SHA-256\<close>

lemma or_byte: "push_bit 8 (x :: u32) OR ucast (b :: byte) = x * 256 + ucast b"
proof -
  have "push_bit 8 x + ucast b = push_bit 8 x OR ucast b"
    by (rule disjunctive_add) (auto simp add: bit_simps dest: bit_imp_le_length)
  then show ?thesis by (simp add: push_bit_eq_mult)
qed

lemma be32_arith:
  "be32 [a, b, c, d] = of_nat (unat a * 2 ^ 24 + unat b * 2 ^ 16 + unat c * 2 ^ 8 + unat d)"
  by (simp add: be32_def or_byte)

lemma byte_of_drop_bit:
  "(ucast (drop_bit k (w :: 'a::len word)) :: byte) = of_nat (unat w div 2 ^ k mod 256)"
proof -
  have "unat (drop_bit k w) = unat w div 2 ^ k"
    unfolding unat_drop_bit_eq by (simp only: drop_bit_eq_div)
  then have "unat (ucast (drop_bit k w) :: byte) = unat w div 2 ^ k mod 256"
    by (simp only: unsigned_ucast_eq take_bit_eq_mod) simp
  then have "of_nat (unat (ucast (drop_bit k w) :: byte))
               = (of_nat (unat w div 2 ^ k mod 256) :: byte)"
    by (rule arg_cong)
  then show ?thesis by simp
qed

lemma putUint32_fips: "putUint32 w = fips_bytes w"
  by (simp add: putUint32_def fips_bytes_def byte_of_drop_bit)

lemma putUint64_length:
  "putUint64 (push_bit 3 (of_nat n))
     = map (\<lambda>j. of_nat ((8 * n) mod 2 ^ 64 div 2 ^ (8 * (7 - j)) mod 256)) [0..<8]"
proof -
  have e: "(push_bit 3 (of_nat n) :: 64 word) = of_nat (8 * n)"
    by (simp add: push_bit_eq_mult)
  have u: "unat (push_bit 3 (of_nat n) :: 64 word) = (8 * n) mod 2 ^ 64"
    unfolding e by (simp only: unat_of_nat) simp
  show ?thesis
    by (simp only: putUint64_def byte_of_drop_bit u)
qed

lemma mod64_shift: "((n :: nat) + 1 + k) mod 64 = (n mod 64 + 1 + k) mod 64"
proof -
  have "(n + (1 + k)) mod 64 = (n mod 64 + (1 + k)) mod 64"
    by (rule mod_add_left_eq [symmetric])
  then show ?thesis by (simp only: add.assoc)
qed

lemma pad_zeros:
  "(LEAST k. ((n :: nat) + 1 + k) mod 64 = 56)
     = (if n mod 64 < 56 then 56 - n mod 64 else 64 + 56 - n mod 64) - 1"
proof -
  define t where "t = n mod 64"
  have t: "t < 64" by (simp add: t_def)
  have P: "(n + 1 + k) mod 64 = (t + 1 + k) mod 64" for k
    unfolding t_def by (rule mod64_shift)
  show ?thesis
  proof (cases "t < 56")
    case True
    have "(LEAST k. (n + 1 + k) mod 64 = 56) = 55 - t"
    proof (rule Least_equality)
      show "(n + 1 + (55 - t)) mod 64 = 56"
        unfolding P using True by simp
      show "55 - t \<le> k" if k: "(n + 1 + k) mod 64 = 56" for k
      proof (rule ccontr)
        assume "\<not> 55 - t \<le> k"
        then have "t + 1 + k < 56" by simp
        then have "(t + 1 + k) mod 64 = t + 1 + k" by simp
        with k \<open>t + 1 + k < 56\<close> show False unfolding P by simp
      qed
    qed
    with True show ?thesis by (simp add: t_def)
  next
    case False
    have "(LEAST k. (n + 1 + k) mod 64 = 56) = 119 - t"
    proof (rule Least_equality)
      have "t + 1 + (119 - t) = 56 + 64" using t by simp
      then show "(n + 1 + (119 - t)) mod 64 = 56"
        unfolding P by simp
      show "119 - t \<le> k" if k: "(n + 1 + k) mod 64 = 56" for k
      proof (rule ccontr)
        assume a: "\<not> 119 - t \<le> k"
        then have lt: "t + 1 + k < 120" by simp
        show False
        proof (cases "t + 1 + k < 64")
          case True
          then have "(t + 1 + k) mod 64 = t + 1 + k" by simp
          with k False show False unfolding P by simp
        next
          case False
          then have "(t + 1 + k) mod 64 = t + 1 + k - 64"
            using lt by (simp add: mod_if)
          with k lt False show False unfolding P by simp
        qed
      qed
    qed
    with False show ?thesis by (simp add: t_def)
  qed
qed

lemma pad256_fips: "pad256 msg = fips_pad msg"
  unfolding pad256_def fips_pad_def Let_def pad_zeros putUint64_length
  by (cases "length msg mod 64 < 56") simp_all

lemma length_pad256: "\<exists>m. length (pad256 msg) = 64 * m"
proof -
  define t where "t = length msg mod 64"
  define q where "q = length msg div 64"
  have n: "length msg = 64 * q + t" and t: "t < 64"
    by (simp_all add: t_def q_def)
  show ?thesis
  proof (cases "t < 56")
    case True
    then have "length (pad256 msg) = 64 * (q + 1)"
      using n by (simp add: pad256_def Let_def putUint64_def t_def [symmetric])
    then show ?thesis ..
  next
    case False
    then have "length (pad256 msg) = 64 * (q + 2)"
      using n t by (simp add: pad256_def Let_def putUint64_def t_def [symmetric])
    then show ?thesis ..
  qed
qed

lemma chunks_unfold:
  "0 < n \<Longrightarrow> xs \<noteq> [] \<Longrightarrow> chunks n xs = take n xs # chunks n (drop n xs)"
  by (cases n; cases xs) simp_all

lemma chunks_Nil: "chunks n [] = []"
  by (cases n) simp_all

lemma chunks_blocks:
  "0 < n \<Longrightarrow> length xs = n * m \<Longrightarrow>
     chunks n xs = map (\<lambda>i. take n (drop (n * i) xs)) [0..<m]"
proof (induction m arbitrary: xs)
  case 0
  then show ?case by (simp add: chunks_Nil)
next
  case (Suc m)
  from Suc.prems have ne: "xs \<noteq> []" by auto
  from Suc.prems have "length (drop n xs) = n * m" by simp
  from Suc.IH [OF Suc.prems(1) this]
  have "chunks n (drop n xs) = map (\<lambda>i. take n (drop (n * Suc i) xs)) [0..<m]"
    by (simp add: add.commute)
  with Suc.prems(1) ne show ?case
    by (simp add: chunks_unfold map_upt_Suc del: upt_Suc)
qed

lemma take4_drop:
  "k + 3 < length p \<Longrightarrow> take 4 (drop k p) = [p ! k, p ! (k + 1), p ! (k + 2), p ! (k + 3)]"
  by (auto simp add: list_eq_iff_nth_eq nth_Cons' numeral_eq_Suc less_Suc_eq)

lemma block_nth:
  assumes "length p = 64 * N" and "i < N" and "j < 64"
  shows "take 64 (drop (64 * i) p) ! j = p ! (64 * i + j)"
  using assms by simp

lemma length_block:
  assumes "length p = 64 * N" and "i < N"
  shows "length (take 64 (drop (64 * i) p)) = 64"
proof -
  from assms(2) have "64 * i + 64 \<le> 64 * N" by simp
  with assms(1) show ?thesis by simp
qed

lemma block_words:
  assumes p: "length p = 64 * N" and i: "i < N"
  shows "map be32 (chunks 4 (take 64 (drop (64 * i) p))) = map (fips_W p i) [0..<16]"
proof -
  let ?b = "take 64 (drop (64 * i) p)"
  have lb: "length ?b = 4 * 16"
    using length_block [OF p i] by simp
  have "chunks 4 ?b = map (\<lambda>t. take 4 (drop (4 * t) ?b)) [0..<16]"
    by (rule chunks_blocks [OF _ lb]) simp
  moreover have "be32 (take 4 (drop (4 * t) ?b)) = fips_W p i t" if t: "t < 16" for t
  proof -
    from t lb have "4 * t + 3 < length ?b" by simp
    then have "take 4 (drop (4 * t) ?b)
                 = [?b ! (4 * t), ?b ! (4 * t + 1), ?b ! (4 * t + 2), ?b ! (4 * t + 3)]"
      by (rule take4_drop)
    moreover have "?b ! (4 * t + j) = p ! (64 * i + 4 * t + j)" if "j < 4" for j
      using block_nth [OF p i, of "4 * t + j"] t that by (simp add: add.assoc)
    from this [of 0] this [of 1] this [of 2] this [of 3]
    have "?b ! (4 * t) = p ! (64 * i + 4 * t)"
      "?b ! (4 * t + 1) = p ! (64 * i + 4 * t + 1)"
      "?b ! (4 * t + 2) = p ! (64 * i + 4 * t + 2)"
      "?b ! (4 * t + 3) = p ! (64 * i + 4 * t + 3)"
      by simp_all
    ultimately have "be32 (take 4 (drop (4 * t) ?b)) = fips_word p (64 * i + 4 * t)"
      by (simp only: be32_arith fips_word_def)
    with t show ?thesis by (simp add: fips_W.simps)
  qed
  ultimately show ?thesis by simp
qed

lemma schedule_fips:
  "w = map (fips_W p i) [0..<m] \<Longrightarrow> 16 \<le> m \<Longrightarrow>
     schedule n w = map (fips_W p i) [0..<m + n]"
proof (induction n arbitrary: w m)
  case 0
  then show ?case by simp
next
  case (Suc n)
  let ?x = "fips_sigma1 (fips_W p i (m - 2)) + fips_W p i (m - 7)
            + fips_sigma0 (fips_W p i (m - 15)) + fips_W p i (m - 16)"
  from Suc.prems have len: "length w = m" by simp
  from Suc.prems have nth: "w ! j = fips_W p i j" if "j < m" for j
    using that by simp
  from Suc.prems(2) have "m - 2 < m" "m - 7 < m" "m - 15 < m" "m - 16 < m" by simp_all
  then have step: "schedule (Suc n) w = schedule n (w @ [?x])"
    by (simp add: Let_def len nth fips_sigma0_def fips_sigma1_def)
  from Suc.prems(2) have "?x = fips_W p i m"
    by (subst (5) fips_W.simps) simp
  with Suc.prems(1) have "w @ [?x] = map (fips_W p i) [0..<Suc m]"
    by simp
  from Suc.IH [OF this] Suc.prems(2) have "schedule n (w @ [?x]) = map (fips_W p i) [0..<Suc m + n]"
    by simp
  with step show ?case by simp
qed

lemma round256_fips: "round256 r (k, w) = fips_round r k w"
proof -
  obtain a b c d e f g h where "r = (a, b, c, d, e, f, g, h)"
    by (metis surj_pair)
  then show ?thesis
    by (simp add: Let_def fips_Sigma0_def fips_Sigma1_def fips_Ch_def fips_Maj_def)
qed

lemma foldl_rounds:
  "foldl round256 r (map (\<lambda>t. (K256 ! t, fips_W p i t)) [0..<n]) = fips_vars p i r n"
  by (induction n) (simp_all add: round256_fips)

lemma length_K256: "length K256 = 64"
  by (simp add: K256_def)

lemma zip_K256:
  "zip K256 (map (fips_W p i) [0..<64]) = map (\<lambda>t. (K256 ! t, fips_W p i t)) [0..<64]"
  by (rule nth_equalityI) (simp_all add: length_K256)

lemma length_fips_H: "length (fips_H p i) = 8"
  by (cases i) (simp_all add: init256_def Let_def split: prod.splits)

lemma block256_fips:
  assumes p: "length p = 64 * N" and i: "i < N"
  shows "block256 (fips_H p i) (take 64 (drop (64 * i) p)) = fips_H p (Suc i)"
proof -
  obtain h0 h1 h2 h3 h4 h5 h6 h7 where H: "fips_H p i = [h0, h1, h2, h3, h4, h5, h6, h7]"
    using length_fips_H [of p i] by (auto simp: length_Suc_conv numeral_eq_Suc)
  have w: "schedule 48 (map be32 (chunks 4 (take 64 (drop (64 * i) p))))
             = map (fips_W p i) [0..<64]"
    using schedule_fips [of "map (fips_W p i) [0..<16]" p i 16 48]
    by (simp add: block_words [OF p i])
  show ?thesis
    by (simp add: H w zip_K256 foldl_rounds Let_def add.commute split: prod.splits
          del: fips_vars.simps upt_Suc)
qed

lemma foldl_blocks:
  assumes p: "length p = 64 * N"
  shows "n \<le> N \<Longrightarrow>
     foldl block256 init256 (map (\<lambda>i. take 64 (drop (64 * i) p)) [0..<n]) = fips_H p n"
proof (induction n)
  case 0
  show ?case by simp
next
  case (Suc n)
  then have "n < N" and ih: "foldl block256 init256 (map (\<lambda>i. take 64 (drop (64 * i) p)) [0..<n])
                               = fips_H p n"
    by simp_all
  with block256_fips [OF p \<open>n < N\<close>] show ?case
    by (simp del: fips_H.simps)
qed

text \<open>The model of \<^verbatim>\<open>sha256.Sum256\<close> computes the digest that the standard defines.\<close>

lemma Sum256_fips: "Sum256 data = fips_SHA256 data"
proof -
  obtain N where N: "length (pad256 data) = 64 * N"
    using length_pad256 by blast
  then have d: "length (pad256 data) div 64 = N" by simp
  have "chunks 64 (pad256 data) = map (\<lambda>i. take 64 (drop (64 * i) (pad256 data))) [0..<N]"
    by (rule chunks_blocks [OF _ N]) simp
  then have "foldl block256 init256 (chunks 64 (pad256 data)) = fips_H (pad256 data) N"
    using foldl_blocks [OF N, of N] by simp
  then show ?thesis
    by (simp add: Sum256_def fips_SHA256_def Let_def pad256_fips [symmetric] d putUint32_fips
          cong: map_cong)
qed

subsection \<open>The identifier decodes to the digest\<close>

lemma hexval_hexdigit_all: "list_all (\<lambda>n. hexval (hexdigit n) = Some n) [0..<16]"
  by code_simp

lemma hexval_hexdigit: "n < 16 \<Longrightarrow> hexval (hexdigit n) = Some n"
  using hexval_hexdigit_all by (simp add: list_all_iff)

lemma byte_nibbles: "(of_nat (16 * (unat b div 16) + unat b mod 16) :: byte) = b"
  by simp

lemma hexDecode_sprintf_x: "hexDecode (sprintf_x bs) = Some bs"
proof (induction bs)
  case Nil
  show ?case by (simp add: sprintf_x_def)
next
  case (Cons b bs)
  have "unat b div 16 < 16"
    using unsigned_less [of b, where 'a = nat] by simp
  with Cons show ?case
    by (simp add: sprintf_x_def hexval_hexdigit del: of_nat_add of_nat_mult)
qed

lemma hexdigit_codes:
  "list_all (\<lambda>n. (of_char (hexdigit n) :: nat) = (if n < 10 then n + 48 else n + 87)) [0..<16]"
  by code_simp

lemma hexval_Some: "hexval c = Some h \<Longrightarrow> h < 16 \<and> c = hexdigit h"
proof -
  assume a: "hexval c = Some h"
  let ?n = "of_char c :: nat"
  from a have r: "(48 \<le> ?n \<and> ?n \<le> 57 \<and> h = ?n - 48) \<or> (97 \<le> ?n \<and> ?n \<le> 102 \<and> h = ?n - 87)"
    by (auto simp add: hexval_def Let_def split: if_splits)
  then have h: "h < 16" by auto
  from r have e: "?n = (if h < 10 then h + 48 else h + 87)" by auto
  from hexdigit_codes h have "(of_char (hexdigit h) :: nat) = (if h < 10 then h + 48 else h + 87)"
    by (simp only: list_all_iff) simp
  with e have "(of_char c :: nat) = of_char (hexdigit h)" by simp
  then have "c = hexdigit h" by (simp only: of_char_eq_iff)
  with h show ?thesis by simp
qed

lemma hexDecode_unique: "hexDecode s = Some bs \<Longrightarrow> s = sprintf_x bs"
proof (induction s arbitrary: bs rule: hexDecode.induct)
  case 1
  then show ?case by (simp add: sprintf_x_def)
next
  case (2 c)
  then show ?case by simp
next
  case (3 c d s)
  from "3.prems" obtain hi lo bs' where h: "hexval c = Some hi" "hexval d = Some lo"
    "hexDecode s = Some bs'" "bs = of_nat (16 * hi + lo) # bs'"
    by (auto split: option.splits)
  from hexval_Some [OF h(1)] hexval_Some [OF h(2)]
  have r: "hi < 16" "lo < 16" "c = hexdigit hi" "d = hexdigit lo" by simp_all
  then have "16 * hi + lo < 256" by simp
  then have u: "unat (of_nat (16 * hi + lo) :: byte) = 16 * hi + lo"
    by (simp add: unat_of_nat del: of_nat_add of_nat_mult)
  from r have "(16 * hi + lo) div 16 = hi" "(16 * hi + lo) mod 16 = lo" by simp_all
  with "3.IH" [OF h(1) h(2) h(3)] h(4) r u show ?case
    by (simp add: sprintf_x_def del: of_nat_add of_nat_mult)
qed

lemma fips_pad_code [code]: "fips_pad msg = pad256 msg"
  by (simp only: pad256_fips)

text \<open>
  C8. For every name, the plugin identifier is the lowercase hexadecimal encoding of the
  SHA-256 digest of the bytes of the name: read back two digits to a byte, the digits
  being \<^verbatim>\<open>0\<close> to \<^verbatim>\<open>9\<close> and \<^verbatim>\<open>a\<close> to \<^verbatim>\<open>f\<close> only, the identifier gives the digest that
  FIPS 180-4 defines for those bytes. The digest has 32 bytes and the identifier 64
  characters, all of them among \<^verbatim>\<open>0123456789abcdef\<close>. On the test vectors of the
  standard (\<^verbatim>\<open>abc\<close>, the empty message, and the message of 56 bytes that is padded to
  two blocks) the identifier is the published digest. The identifier is a function of
  the name alone, so equal names have equal identifiers.
\<close>

theorem pluginIDFromName_sha256_hex:
  "hexDecode (pluginIDFromName name) = Some (fips_SHA256 (map of_char name))
   \<and> length (fips_SHA256 (map of_char name)) = 32
   \<and> length (pluginIDFromName name) = 64
   \<and> set (pluginIDFromName name) \<subseteq> set ''0123456789abcdef''
   \<and> pluginIDFromName ''abc''
       = ''ba7816bf8f01cfea414140de5dae2223b00361a396177a9cb410ff61f20015ad''
   \<and> pluginIDFromName []
       = ''e3b0c44298fc1c149afbf4c8996fb92427ae41e4649b934ca495991b7852b855''
   \<and> pluginIDFromName ''abcdbcdecdefdefgefghfghighijhijkijkljklmklmnlmnomnopnopq''
       = ''248d6a61d20638b8e5c026930c3e6039a33ce45964ff2167f6ecedd419db06c1''"
proof -
  have "hexDecode (pluginIDFromName name) = Some (fips_SHA256 (map of_char name))"
    by (simp add: pluginIDFromName_def hexDecode_sprintf_x Sum256_fips)
  moreover have "length (fips_SHA256 (map of_char name)) = 32"
    by (simp only: Sum256_fips [symmetric] length_Sum256)
  moreover have "length (pluginIDFromName name) = 64"
    by (simp add: pluginIDFromName_def length_sprintf_x length_Sum256)
  moreover have "set (pluginIDFromName name) \<subseteq> set ''0123456789abcdef''"
    unfolding pluginIDFromName_def Let_def by (rule set_sprintf_x)
  ultimately show ?thesis
    using pluginIDFromName_abc pluginIDFromName_empty pluginIDFromName_two_blocks
    by blast
qed

subsection \<open>Operations that leave the registry alone\<close>

lemma disk_Debugf [simp]: "disk (Debugf f a w) = disk w"
  by (simp add: Debugf_def)

lemma disk_Infof [simp]: "disk (Infof f a w) = disk w"
  by (simp add: Infof_def)

text \<open>
  C3. When the image loads but is not a plugin, Install returns the error "not a valid
  plugin" and has done nothing but write its debug message: the file system, and so
  the registry root, is what it was; no metadata file, image copy or binary object has
  been created.
\<close>

theorem Install_rejects_non_plugin:
  assumes "LoadContainer env (disk w) sifPath True = Inr fimg"
    and "\<not> isPluginFile fimg"
  shows "Install env sifPath name w =
           (Some NotAPlugin,
            w\<lparr>sylog := sylog w @ [LogDebug ''Installing plugin from SIF to %q''
                                      [S (pathString (rootDir env))]]\<rparr>)
         \<and> disk (snd (Install env sifPath name w)) = disk w"
  using assms by (simp add: Install_def Let_def newSifFileImageReader_def Debugf_def)

theorem Install_rejects_non_plugin_witness:
  "LoadContainer exampleEnv (disk world0) ''b.sif'' True = Inr plainImage
   \<and> \<not> isPluginFile plainImage
   \<and> fst (Install exampleEnv ''b.sif'' ''foo'' world0) = Some NotAPlugin
   \<and> disk (snd (Install exampleEnv ''b.sif'' ''foo'' world0)) = disk world0"
proof -
  have h1: "LoadContainer exampleEnv (disk world0) ''b.sif'' True = Inr plainImage"
    by code_simp
  have h2: "\<not> isPluginFile plainImage"
    by code_simp
  show ?thesis
    using h1 h2 Install_rejects_non_plugin [OF h1 h2, of "''foo''"] by simp
qed

text \<open>
  C10. When no metadata record can be loaded for the name, Uninstall, Enable and
  Disable each return the error of the lookup, and the file system they leave is the
  one they found.
\<close>

theorem lookup_failure_mutates_nothing:
  assumes "loadMetaByName env (disk w) name = Inl err"
  shows "fst (Uninstall env name w) = Some err \<and> disk (snd (Uninstall env name w)) = disk w
       \<and> fst (Enable env name w) = Some err \<and> disk (snd (Enable env name w)) = disk w
       \<and> fst (Disable env name w) = Some err \<and> disk (snd (Disable env name w)) = disk w"
  using assms by (simp add: Uninstall_def Enable_def Disable_def Let_def)

theorem lookup_failure_mutates_nothing_witness:
  "loadMetaByName exampleEnv (disk world0) ''foo'' = Inl (NotFound ''/reg/foo.meta'')
   \<and> fst (Uninstall exampleEnv ''foo'' world0) = Some (NotFound ''/reg/foo.meta'')
   \<and> disk (snd (Uninstall exampleEnv ''foo'' world0)) = disk world0
   \<and> fst (Enable exampleEnv ''foo'' world0) = Some (NotFound ''/reg/foo.meta'')
   \<and> disk (snd (Enable exampleEnv ''foo'' world0)) = disk world0
   \<and> fst (Disable exampleEnv ''foo'' world0) = Some (NotFound ''/reg/foo.meta'')
   \<and> disk (snd (Disable exampleEnv ''foo'' world0)) = disk world0"
proof -
  have h: "loadMetaByName exampleEnv (disk world0) ''foo'' = Inl (NotFound ''/reg/foo.meta'')"
    by code_simp
  show ?thesis
    using h lookup_failure_mutates_nothing [OF h] by simp
qed

text \<open>
  C5. Enable on a plugin whose record is enabled, and Disable on a plugin whose record
  is disabled, return no error and leave the world as it was but for the log, where the
  last message is the informational note: nothing is flipped and no file is written.
\<close>

theorem already_in_requested_state:
  "(loadMetaByName env (disk w) name = Inr meta \<and> Enabled meta \<longrightarrow>
      Enable env name w =
        (None, w\<lparr>sylog := sylog w @
           [LogDebug ''Enabling plugin %q in %q'' [S name, S (pathString (rootDir env))],
            LogDebug ''Found plugin %q, meta=%#v'' [S name, M meta],
            LogInfo ''Plugin %q is already enabled'' [S name]]\<rparr>))
   \<and> (loadMetaByName env (disk w) name = Inr meta \<and> \<not> Enabled meta \<longrightarrow>
      Disable env name w =
        (None, w\<lparr>sylog := sylog w @
           [LogDebug ''Disabling plugin %q in %q'' [S name, S (pathString (rootDir env))],
            LogDebug ''Found plugin %q, meta=%#v'' [S name, M meta],
            LogInfo ''Plugin %q is already disabled'' [S name]]\<rparr>))"
  by (simp add: Enable_def Disable_def Let_def Debugf_def Infof_def)

theorem already_in_requested_state_witness:
  "loadMetaByName exampleEnv (disk world1) ''foo''
     = Inr \<lparr>Name = ''foo'', Enabled = True, sifFile = None\<rparr>
   \<and> fst (Enable exampleEnv ''foo'' world1) = None
   \<and> disk (snd (Enable exampleEnv ''foo'' world1)) = disk world1
   \<and> loadMetaByName exampleEnv (disk world2) ''foo''
     = Inr \<lparr>Name = ''foo'', Enabled = False, sifFile = None\<rparr>
   \<and> fst (Disable exampleEnv ''foo'' world2) = None
   \<and> disk (snd (Disable exampleEnv ''foo'' world2)) = disk world2"
proof -
  have h1: "loadMetaByName exampleEnv (disk world1) ''foo''
              = Inr \<lparr>Name = ''foo'', Enabled = True, sifFile = None\<rparr>"
    by code_simp
  have h2: "loadMetaByName exampleEnv (disk world2) ''foo''
              = Inr \<lparr>Name = ''foo'', Enabled = False, sifFile = None\<rparr>"
    by code_simp
  show ?thesis
    using h1 h2
      already_in_requested_state [of exampleEnv world1 "''foo''"
        "\<lparr>Name = ''foo'', Enabled = True, sifFile = None\<rparr>"]
      already_in_requested_state [of exampleEnv world2 "''foo''"
        "\<lparr>Name = ''foo'', Enabled = False, sifFile = None\<rparr>"]
    by simp
qed

subsection \<open>Install: the record it builds\<close>

text \<open>
  C6. For a valid plugin image, Install hands to the record's own install exactly the
  record whose name is the name argument when one is given, and the name declared by
  the manifest only when the argument is empty, with the enabled flag set; what
  Install returns and leaves is what that installation returns and leaves.
\<close>

theorem Install_effective_name:
  assumes "LoadContainer env (disk w) sifPath True = Inr fimg"
    and "isPluginFile fimg"
  shows "Install env sifPath name w =
           (let effective = (if name \<noteq> [] then name else manifestName (getManifest fimg));
                m = \<lparr>Name = effective, Enabled = True, sifFile = Some fimg\<rparr>;
                r = install env m (disk w)
            in (map_option InstallError (fst r),
                \<lparr>disk = snd r,
                 sylog = sylog w @ [LogDebug ''Installing plugin from SIF to %q''
                                      [S (pathString (rootDir env))]]\<rparr>))"
  using assms
  by (auto simp add: Install_def Let_def newSifFileImageReader_def Debugf_def
        split: prod.splits option.splits)

theorem Install_effective_name_witness:
  "LoadContainer exampleEnv (disk world0) ''a.sif'' True = Inr pluginImage
   \<and> isPluginFile pluginImage
   \<and> manifestName (getManifest pluginImage) = ''declared''
   \<and> fst (Install exampleEnv ''a.sif'' ''foo'' world0) = None
   \<and> loadMetaByName exampleEnv (disk (snd (Install exampleEnv ''a.sif'' ''foo'' world0))) ''foo''
       = Inr \<lparr>Name = ''foo'', Enabled = True, sifFile = None\<rparr>
   \<and> Install exampleEnv ''a.sif'' [] world0 =
       (map_option InstallError
          (fst (install exampleEnv
                  \<lparr>Name = ''declared'', Enabled = True, sifFile = Some pluginImage\<rparr>
                  (disk world0))),
        \<lparr>disk = snd (install exampleEnv
                  \<lparr>Name = ''declared'', Enabled = True, sifFile = Some pluginImage\<rparr>
                  (disk world0)),
         sylog = sylog world0 @ [LogDebug ''Installing plugin from SIF to %q''
                                   [S (pathString (rootDir exampleEnv))]]\<rparr>)"
proof -
  have h1: "LoadContainer exampleEnv (disk world0) ''a.sif'' True = Inr pluginImage"
    by code_simp
  have h2: "isPluginFile pluginImage"
    by code_simp
  have h3: "manifestName (getManifest pluginImage) = ''declared''"
    by code_simp
  have h4: "fst (Install exampleEnv ''a.sif'' ''foo'' world0) = None"
    by code_simp
  have h5: "loadMetaByName exampleEnv
              (disk (snd (Install exampleEnv ''a.sif'' ''foo'' world0))) ''foo''
            = Inr \<lparr>Name = ''foo'', Enabled = True, sifFile = None\<rparr>"
    by code_simp
  show ?thesis
    using h1 h2 h3 h4 h5 Install_effective_name [OF h1 h2, of "[]"]
    by (simp add: Let_def)
qed

subsection \<open>Inspect\<close>

lemma loadMetaByName_error:
  "loadMetaByName env fs0 name = Inl e \<Longrightarrow>
     e = NotFound (metaName env \<lparr>Name = name, Enabled = False, sifFile = None\<rparr>)"
  by (auto simp add: loadMetaByName_def loadMetaByFilename_def
        split: sum.splits content.splits)

text \<open>
  C2. Inspect decides by \<^verbatim>\<open>os.Stat\<close> of its argument. When stat succeeds, the argument
  itself is opened as an image, and no record is looked up. When stat fails because
  the file does not exist, the argument is looked up as a plugin name: the image copy
  of the record found is opened in its place, and when no record is found Inspect
  returns the error of the lookup, which is \<^verbatim>\<open>NotFound\<close>. When stat fails for any other
  reason, Inspect returns that error, and no record is looked up.
\<close>

theorem Inspect_resolution_order:
  "(\<forall>fi. os_Stat env (disk w) name = Inr fi \<longrightarrow>
       Inspect env name w = readPluginImage env (disk w) name)
   \<and> (\<forall>err. os_Stat env (disk w) name = Inl err \<and> IsNotExist err \<longrightarrow>
       (case loadMetaByName env (disk w) name of
          Inr meta \<Rightarrow> Inspect env name w = readPluginImage env (disk w) (imageName env meta)
        | Inl e \<Rightarrow>
            e = NotFound (metaName env \<lparr>Name = name, Enabled = False, sifFile = None\<rparr>)
            \<and> Inspect env name w = (\<lparr>manifestName = []\<rparr>, Some e)))
   \<and> (\<forall>err. os_Stat env (disk w) name = Inl err \<and> \<not> IsNotExist err \<longrightarrow>
       Inspect env name w = (\<lparr>manifestName = []\<rparr>, Some err))"
  by (auto simp add: Inspect_def Let_def newSifFileImageReader_def readPluginImage_def
        dest: loadMetaByName_error split: sum.splits)

theorem Inspect_resolution_order_witness:
  "os_Stat exampleEnv (disk world1) ''a.sif'' = Inr ModeRegular
   \<and> Inspect exampleEnv ''a.sif'' world1 = (\<lparr>manifestName = ''declared''\<rparr>, None)
   \<and> os_Stat exampleEnv (disk world1) ''foo'' = Inl (PathError ''stat'' ''foo'' ENOENT)
   \<and> Inspect exampleEnv ''foo'' world1
       = readPluginImage exampleEnv (disk world1) ''/reg/foo/plugin.sif''
   \<and> os_Stat exampleEnv (disk world1) ''nonexistent-name''
       = Inl (PathError ''stat'' ''nonexistent-name'' ENOENT)
   \<and> Inspect exampleEnv ''nonexistent-name'' world1
       = (\<lparr>manifestName = []\<rparr>, Some (NotFound ''/reg/nonexistent-name.meta''))
   \<and> os_Stat exampleEnv (disk world1) ''a.sif/foo''
       = Inl (PathError ''stat'' ''a.sif/foo'' ENOTDIR)
   \<and> Inspect exampleEnv ''a.sif/foo'' world1
       = (\<lparr>manifestName = []\<rparr>, Some (PathError ''stat'' ''a.sif/foo'' ENOTDIR))"
proof -
  have s1: "os_Stat exampleEnv (disk world1) ''a.sif'' = Inr ModeRegular"
    by code_simp
  have r1: "readPluginImage exampleEnv (disk world1) ''a.sif''
              = (\<lparr>manifestName = ''declared''\<rparr>, None)"
    by code_simp
  have s2: "os_Stat exampleEnv (disk world1) ''foo'' = Inl (PathError ''stat'' ''foo'' ENOENT)"
    by code_simp
  have l2: "loadMetaByName exampleEnv (disk world1) ''foo''
              = Inr \<lparr>Name = ''foo'', Enabled = True, sifFile = None\<rparr>"
    by code_simp
  have i2: "imageName exampleEnv \<lparr>Name = ''foo'', Enabled = True, sifFile = None\<rparr>
              = ''/reg/foo/plugin.sif''"
    by code_simp
  have s3: "os_Stat exampleEnv (disk world1) ''nonexistent-name''
              = Inl (PathError ''stat'' ''nonexistent-name'' ENOENT)"
    by code_simp
  have l3: "loadMetaByName exampleEnv (disk world1) ''nonexistent-name''
              = Inl (NotFound ''/reg/nonexistent-name.meta'')"
    by code_simp
  have s4: "os_Stat exampleEnv (disk world1) ''a.sif/foo''
              = Inl (PathError ''stat'' ''a.sif/foo'' ENOTDIR)"
    by code_simp
  show ?thesis
    using s1 r1 s2 l2 i2 s3 l3 s4
      Inspect_resolution_order [of exampleEnv world1 "''a.sif''"]
      Inspect_resolution_order [of exampleEnv world1 "''foo''"]
      Inspect_resolution_order [of exampleEnv world1 "''nonexistent-name''"]
      Inspect_resolution_order [of exampleEnv world1 "''a.sif/foo''"]
    by simp
qed

text \<open>
  C7. Whatever file Inspect ends up opening (its argument when stat succeeds, the image
  copy of the record found when the argument does not exist), once the container has
  loaded Inspect returns the zero manifest with the error "not a valid plugin" when the
  image is not a plugin, and the embedded manifest with no error when it is.
\<close>

theorem Inspect_validates_opened_image:
  assumes "(os_Stat env (disk w) name = Inr fi \<and> file = name)
         \<or> (os_Stat env (disk w) name = Inl err \<and> IsNotExist err
            \<and> loadMetaByName env (disk w) name = Inr meta \<and> file = imageName env meta)"
    and "LoadContainer env (disk w) file True = Inr fimg"
  shows "Inspect env name w =
           (if isPluginFile fimg then (getManifest fimg, None)
            else (\<lparr>manifestName = []\<rparr>, Some NotAPlugin))"
  using assms by (auto simp add: Inspect_def Let_def newSifFileImageReader_def)

theorem Inspect_validates_opened_image_witness:
  "os_Stat exampleEnv (disk world0) ''b.sif'' = Inr ModeRegular
   \<and> LoadContainer exampleEnv (disk world0) ''b.sif'' True = Inr plainImage
   \<and> \<not> isPluginFile plainImage
   \<and> Inspect exampleEnv ''b.sif'' world0 = (\<lparr>manifestName = []\<rparr>, Some NotAPlugin)
   \<and> os_Stat exampleEnv (disk world1) ''foo'' = Inl (PathError ''stat'' ''foo'' ENOENT)
   \<and> loadMetaByName exampleEnv (disk world1) ''foo''
       = Inr \<lparr>Name = ''foo'', Enabled = True, sifFile = None\<rparr>
   \<and> LoadContainer exampleEnv (disk world1)
        (imageName exampleEnv \<lparr>Name = ''foo'', Enabled = True, sifFile = None\<rparr>) True
       = Inr pluginImage
   \<and> isPluginFile pluginImage
   \<and> Inspect exampleEnv ''foo'' world1 = (\<lparr>manifestName = ''declared''\<rparr>, None)"
proof -
  have s1: "os_Stat exampleEnv (disk world0) ''b.sif'' = Inr ModeRegular"
    by code_simp
  have c1: "LoadContainer exampleEnv (disk world0) ''b.sif'' True = Inr plainImage"
    by code_simp
  have p1: "\<not> isPluginFile plainImage"
    by code_simp
  have s2: "os_Stat exampleEnv (disk world1) ''foo'' = Inl (PathError ''stat'' ''foo'' ENOENT)"
    by code_simp
  have n2: "IsNotExist (PathError ''stat'' ''foo'' ENOENT)"
    by simp
  have l2: "loadMetaByName exampleEnv (disk world1) ''foo''
              = Inr \<lparr>Name = ''foo'', Enabled = True, sifFile = None\<rparr>"
    by code_simp
  have c2: "LoadContainer exampleEnv (disk world1)
              (imageName exampleEnv \<lparr>Name = ''foo'', Enabled = True, sifFile = None\<rparr>) True
            = Inr pluginImage"
    by code_simp
  have p2: "isPluginFile pluginImage"
    by code_simp
  have m2: "getManifest pluginImage = \<lparr>manifestName = ''declared''\<rparr>"
    by code_simp
  have a: "Inspect exampleEnv ''b.sif'' world0 = (\<lparr>manifestName = []\<rparr>, Some NotAPlugin)"
    using Inspect_validates_opened_image
            [of exampleEnv world0 "''b.sif''" ModeRegular "''b.sif''" _ _ plainImage] s1 c1 p1
    by simp
  have b: "Inspect exampleEnv ''foo'' world1 = (\<lparr>manifestName = ''declared''\<rparr>, None)"
    using Inspect_validates_opened_image
            [of exampleEnv world1 "''foo''" _
                "imageName exampleEnv \<lparr>Name = ''foo'', Enabled = True, sifFile = None\<rparr>"
                "PathError ''stat'' ''foo'' ENOENT"
                "\<lparr>Name = ''foo'', Enabled = True, sifFile = None\<rparr>" pluginImage]
          s2 n2 l2 c2 p2 m2
    by simp
  show ?thesis
    using s1 c1 p1 a s2 l2 c2 p2 b by simp
qed

subsection \<open>List\<close>

lemma List_loop_result:
  "fst (List_loop env entries metas w) = metas @ List.map_filter (entryRecord env (disk w)) entries
   \<and> disk (snd (List_loop env entries metas w)) = disk w"
proof (induction entries arbitrary: metas w)
  case Nil
  show ?case by (simp add: List.map_filter_simps)
next
  case (Cons entry entries)
  show ?case
    by (simp add: Cons.IH entryRecord_def List.map_filter_simps split: sum.splits)
qed

lemma entryRecord_Some:
  "entryRecord env fs0 entry = Some m \<longleftrightarrow>
     (\<exists>fi. os_Stat env fs0 entry = Inr fi \<and> IsRegular fi)
     \<and> loadMetaByFilename env fs0 entry = Inr m"
  by (auto simp add: entryRecord_def split: sum.splits)

lemma List_loop_log:
  "sylog (snd (List_loop env entries metas w))
     = sylog w @ List.map_filter (entryLog env (disk w)) entries"
proof (induction entries arbitrary: metas w)
  case Nil
  show ?case by (simp add: List.map_filter_simps)
next
  case (Cons entry entries)
  show ?case
    by (simp add: Cons.IH entryLog_def Debugf_def List.map_filter_simps split: sum.splits)
qed

text \<open>
  C4. Whatever the candidate entries are, the loop of List goes through all of them:
  it returns, in their order, the records of the entries that can be stat'ed, are
  regular files and parse, and skips every other entry. It writes no file; its log
  grows by one debug message for each entry that fails stat or does not parse, and by
  nothing for an entry that is not a regular file. So when the glob has produced the
  entries, List returns those records and no error.
\<close>

theorem List_skips_bad_entries:
  "fst (List_loop env entries [] w) = List.map_filter (entryRecord env (disk w)) entries
   \<and> disk (snd (List_loop env entries [] w)) = disk w
   \<and> sylog (snd (List_loop env entries [] w))
       = sylog w @ List.map_filter (entryLog env (disk w)) entries
   \<and> (\<forall>entry m. entryRecord env (disk w) entry = Some m \<longleftrightarrow>
         (\<exists>fi. os_Stat env (disk w) entry = Inr fi \<and> IsRegular fi)
         \<and> loadMetaByFilename env (disk w) entry = Inr m)
   \<and> (Glob env (disk w) (rootDir env) ''.meta'' = Inr entries \<longrightarrow>
        fst (List env w) = Inr (List.map_filter (entryRecord env (disk w)) entries)
        \<and> disk (snd (List env w)) = disk w)"
proof -
  obtain metas w' where l: "List_loop env entries [] w = (metas, w')"
    by (cases "List_loop env entries [] w")
  with List_loop_result [of env entries "[]" w]
  have r: "metas = List.map_filter (entryRecord env (disk w)) entries" "disk w' = disk w"
    by simp_all
  from l List_loop_log [of env entries "[]" w]
  have g: "sylog w' = sylog w @ List.map_filter (entryLog env (disk w)) entries"
    by simp
  from l r g show ?thesis
    by (simp add: entryRecord_Some List_def)
qed

theorem List_skips_bad_entries_witness:
  "Glob exampleEnv (disk world1) (rootDir exampleEnv) ''.meta''
     = Inr [''/reg/bad.meta'', ''/reg/dir.meta'', ''/reg/foo.meta'']
   \<and> entryRecord exampleEnv (disk world1) ''/reg/bad.meta'' = None
   \<and> entryRecord exampleEnv (disk world1) ''/reg/dir.meta'' = None
   \<and> entryRecord exampleEnv (disk world1) ''/reg/gone.meta'' = None
   \<and> fst (List exampleEnv world1) = Inr [\<lparr>Name = ''foo'', Enabled = True, sifFile = None\<rparr>]
   \<and> fst (List_loop exampleEnv [''/reg/gone.meta'', ''/reg/foo.meta''] [] world1)
       = [\<lparr>Name = ''foo'', Enabled = True, sifFile = None\<rparr>]
   \<and> sylog (snd (List_loop exampleEnv
                     [''/reg/bad.meta'', ''/reg/dir.meta'', ''/reg/foo.meta''] [] world1))
       = [LogDebug ''Error loading %s: %s. Skip''
            [S ''/reg/bad.meta'', E (NotFound ''/reg/bad.meta'')]]"
proof -
  have g: "Glob exampleEnv (disk world1) (rootDir exampleEnv) ''.meta''
             = Inr [''/reg/bad.meta'', ''/reg/dir.meta'', ''/reg/foo.meta'']"
    by code_simp
  have e1: "entryRecord exampleEnv (disk world1) ''/reg/bad.meta'' = None"
    by code_simp
  have e2: "entryRecord exampleEnv (disk world1) ''/reg/dir.meta'' = None"
    by code_simp
  have e3: "entryRecord exampleEnv (disk world1) ''/reg/gone.meta'' = None"
    by code_simp
  have e4: "entryRecord exampleEnv (disk world1) ''/reg/foo.meta''
              = Some \<lparr>Name = ''foo'', Enabled = True, sifFile = None\<rparr>"
    by code_simp
  have l1: "fst (List exampleEnv world1)
              = Inr (List.map_filter (entryRecord exampleEnv (disk world1))
                       [''/reg/bad.meta'', ''/reg/dir.meta'', ''/reg/foo.meta''])"
    using g List_skips_bad_entries [of exampleEnv
         "[''/reg/bad.meta'', ''/reg/dir.meta'', ''/reg/foo.meta'']" world1]
    by blast
  have l2: "fst (List_loop exampleEnv [''/reg/gone.meta'', ''/reg/foo.meta''] [] world1)
              = List.map_filter (entryRecord exampleEnv (disk world1))
                  [''/reg/gone.meta'', ''/reg/foo.meta'']"
    using List_skips_bad_entries [of exampleEnv "[''/reg/gone.meta'', ''/reg/foo.meta'']" world1]
    by blast
  have g1: "entryLog exampleEnv (disk world1) ''/reg/bad.meta''
              = Some (LogDebug ''Error loading %s: %s. Skip''
                        [S ''/reg/bad.meta'', E (NotFound ''/reg/bad.meta'')])"
    by code_simp
  have g2: "entryLog exampleEnv (disk world1) ''/reg/dir.meta'' = None"
    by code_simp
  have g3: "entryLog exampleEnv (disk world1) ''/reg/foo.meta'' = None"
    by code_simp
  have l3: "sylog (snd (List_loop exampleEnv
                          [''/reg/bad.meta'', ''/reg/dir.meta'', ''/reg/foo.meta''] [] world1))
              = sylog world1 @ List.map_filter (entryLog exampleEnv (disk world1))
                  [''/reg/bad.meta'', ''/reg/dir.meta'', ''/reg/foo.meta'']"
    using List_skips_bad_entries [of exampleEnv
         "[''/reg/bad.meta'', ''/reg/dir.meta'', ''/reg/foo.meta'']" world1]
    by blast
  have l4: "sylog world1 = []"
    by code_simp
  show ?thesis
    unfolding l1 l2 l3 l4 using g e1 e2 e3 e4 g1 g2 g3 by (simp add: List.map_filter_simps)
qed


subsection \<open>Writing a file and reading it back\<close>

lemma lookup_update:
  "lookup (AList.update p n fs0) q =
     (if q = [] then Some Dir else if q = p then Some n else lookup fs0 q)"
  by (simp add: lookup_def update_conv')

lemma lookup_root_Dir: "lookup fs0 p \<noteq> Some Dir \<Longrightarrow> p \<noteq> []"
  by (auto simp add: lookup_def)

lemma walk_update_File:
  assumes "lookup fs0 p \<noteq> Some Dir"
  shows "walk fs0 cur cs = Inr q \<Longrightarrow> walk (AList.update p (File c) fs0) cur cs = Inr q"
proof (induction cs arbitrary: cur)
  case Nil
  then show ?case by simp
next
  case (Cons a cs)
  from Cons.prems have d: "lookup fs0 cur = Some Dir"
    by (auto split: option.splits node.splits)
  with assms have "cur \<noteq> p" by auto
  with d have "lookup (AList.update p (File c) fs0) cur = Some Dir"
    by (simp add: lookup_update)
  with Cons.prems d Cons.IH [of "step cur a"] show ?case by simp
qed

lemma os_WriteFile_Inr:
  "os_WriteFile env fs0 name c = Inr fs1 \<longleftrightarrow>
     (\<exists>p. resolve env fs0 name = Inr p \<and> lookup fs0 p \<noteq> Some Dir
          \<and> fs1 = AList.update p (File c) fs0)"
  by (auto simp add: os_WriteFile_def split: sum.splits option.splits node.splits)

lemma os_ReadFile_Inr:
  "os_ReadFile env fs0 name = Inr c \<longleftrightarrow>
     (\<exists>p. resolve env fs0 name = Inr p \<and> lookup fs0 p = Some (File c))"
  by (auto simp add: os_ReadFile_def split: sum.splits option.splits node.splits)

lemma resolve_update_File:
  "lookup fs0 p \<noteq> Some Dir \<Longrightarrow> resolve env fs0 name = Inr q \<Longrightarrow>
     resolve env (AList.update p (File c) fs0) name = Inr q"
  by (auto simp add: resolve_def walk_update_File split: if_splits)

lemma write_then_read:
  assumes "os_WriteFile env fs0 name c = Inr fs1"
  shows "os_ReadFile env fs1 name = Inr c"
proof -
  from assms obtain p where p: "resolve env fs0 name = Inr p" "lookup fs0 p \<noteq> Some Dir"
      "fs1 = AList.update p (File c) fs0"
    by (auto simp add: os_WriteFile_Inr)
  from p(2) have "p \<noteq> []" by (rule lookup_root_Dir)
  with p show ?thesis
    by (auto simp add: os_ReadFile_Inr resolve_update_File lookup_update)
qed

lemma metaName_Name:
  "metaName env m = metaName env \<lparr>Name = Name m, Enabled = False, sifFile = None\<rparr>"
  by (simp add: metaName_def)

lemma loadMetaByFilename_Inr:
  "loadMetaByFilename env fs0 file = Inr m \<longleftrightarrow>
     (\<exists>n e. os_ReadFile env fs0 file = Inr (MetaJSON n e)
            \<and> m = \<lparr>Name = n, Enabled = e, sifFile = None\<rparr>)"
  by (auto simp add: loadMetaByFilename_def split: sum.splits content.splits)

text \<open>
  Rewriting the metadata file of an installed plugin succeeds, changes the file system
  at that file only, and leaves the plugin installed with the flag written.
\<close>

lemma save_installed:
  assumes "installed env fs0 name m"
  shows "\<exists>p. resolve env fs0 (metaName env m) = Inr p
            \<and> lookup fs0 p = Some (File (MetaJSON name (Enabled m)))
            \<and> save env (m\<lparr>Enabled := b\<rparr>) fs0
                = (None, AList.update p (File (MetaJSON name b)) fs0)
            \<and> installed env (AList.update p (File (MetaJSON name b)) fs0) name
                (m\<lparr>Enabled := b\<rparr>)"
proof -
  let ?file = "metaName env m"
  from assms have nm: "Name m = name"
    and ld: "loadMetaByFilename env fs0 ?file = Inr m"
    using metaName_Name [of env m] by (auto simp add: installed_def loadMetaByName_def)
  from ld nm obtain e where rd: "os_ReadFile env fs0 ?file = Inr (MetaJSON name e)"
    and m: "m = \<lparr>Name = name, Enabled = e, sifFile = None\<rparr>"
    by (auto simp add: loadMetaByFilename_Inr)
  from rd obtain p where p: "resolve env fs0 ?file = Inr p"
    "lookup fs0 p = Some (File (MetaJSON name e))"
    by (auto simp add: os_ReadFile_Inr)
  let ?fs1 = "AList.update p (File (MetaJSON name b)) fs0"
  have fl: "metaName env (m\<lparr>Enabled := b\<rparr>) = ?file"
    by (simp add: metaName_def)
  from p have wr: "os_WriteFile env fs0 ?file (MetaJSON name b) = Inr ?fs1"
    by (auto simp add: os_WriteFile_Inr)
  then have sv: "save env (m\<lparr>Enabled := b\<rparr>) fs0 = (None, ?fs1)"
    using nm by (simp add: save_def fl)
  from wr have "os_ReadFile env ?fs1 ?file = Inr (MetaJSON name b)"
    by (rule write_then_read)
  then have "loadMetaByFilename env ?fs1 ?file = Inr (m\<lparr>Enabled := b\<rparr>)"
    using m by (simp add: loadMetaByFilename_Inr)
  then have "installed env ?fs1 name (m\<lparr>Enabled := b\<rparr>)"
    using nm metaName_Name [of env m] by (simp add: installed_def loadMetaByName_def)
  with p sv m show ?thesis by auto
qed

lemma Enable_installed:
  assumes "installed env (disk w) name m"
  shows "fst (Enable env name w) = None
       \<and> installed env (disk (snd (Enable env name w))) name (m\<lparr>Enabled := True\<rparr>)
       \<and> (Enabled m \<longrightarrow> disk (snd (Enable env name w)) = disk w)
       \<and> (\<exists>p. resolve env (disk w) (metaName env m) = Inr p
              \<and> lookup (disk w) p = Some (File (MetaJSON name (Enabled m)))
              \<and> (\<not> Enabled m \<longrightarrow> disk (snd (Enable env name w))
                                    = AList.update p (File (MetaJSON name True)) (disk w)))"
proof -
  from assms have ld: "loadMetaByName env (disk w) name = Inr m"
    by (simp add: installed_def)
  from save_installed [OF assms, of True] obtain p where
    p: "resolve env (disk w) (metaName env m) = Inr p"
       "lookup (disk w) p = Some (File (MetaJSON name (Enabled m)))"
       "save env (m\<lparr>Enabled := True\<rparr>) (disk w)
          = (None, AList.update p (File (MetaJSON name True)) (disk w))"
       "installed env (AList.update p (File (MetaJSON name True)) (disk w)) name
          (m\<lparr>Enabled := True\<rparr>)"
    by blast
  show ?thesis
  proof (cases "Enabled m")
    case True
    then have eq: "m\<lparr>Enabled := True\<rparr> = m" by simp
    have "installed env (disk w) name (m\<lparr>Enabled := True\<rparr>)"
      unfolding eq by (rule assms)
    with True ld p(1,2) show ?thesis
      by (auto simp add: Enable_def Let_def)
  next
    case False
    with ld p show ?thesis
      by (auto simp add: Enable_def Let_def enable_def)
  qed
qed

lemma Disable_installed:
  assumes "installed env (disk w) name m"
  shows "fst (Disable env name w) = None
       \<and> installed env (disk (snd (Disable env name w))) name (m\<lparr>Enabled := False\<rparr>)
       \<and> (\<not> Enabled m \<longrightarrow> disk (snd (Disable env name w)) = disk w)
       \<and> (\<exists>p. resolve env (disk w) (metaName env m) = Inr p
              \<and> lookup (disk w) p = Some (File (MetaJSON name (Enabled m)))
              \<and> (Enabled m \<longrightarrow> disk (snd (Disable env name w))
                                  = AList.update p (File (MetaJSON name False)) (disk w)))"
proof -
  from assms have ld: "loadMetaByName env (disk w) name = Inr m"
    by (simp add: installed_def)
  from save_installed [OF assms, of False] obtain p where
    p: "resolve env (disk w) (metaName env m) = Inr p"
       "lookup (disk w) p = Some (File (MetaJSON name (Enabled m)))"
       "save env (m\<lparr>Enabled := False\<rparr>) (disk w)
          = (None, AList.update p (File (MetaJSON name False)) (disk w))"
       "installed env (AList.update p (File (MetaJSON name False)) (disk w)) name
          (m\<lparr>Enabled := False\<rparr>)"
    by blast
  show ?thesis
  proof (cases "Enabled m")
    case False
    then have eq: "m\<lparr>Enabled := False\<rparr> = m" by simp
    have "installed env (disk w) name (m\<lparr>Enabled := False\<rparr>)"
      unfolding eq by (rule assms)
    with False ld p(1,2) show ?thesis
      by (auto simp add: Disable_def Let_def)
  next
    case True
    with ld p show ?thesis
      by (auto simp add: Disable_def Let_def disable_def)
  qed
qed

lemma update_back:
  assumes "lookup fs0 p = Some (File c)"
  shows "AList.update p (File c) (AList.update p (File c') fs0) = fs0"
proof -
  from assms have "p \<noteq> []" by (auto simp add: lookup_def)
  with assms have "map_of fs0 p = Some (File c)" by (simp add: lookup_def)
  then show ?thesis by (simp add: update_triv)
qed

lemma flip_and_back:
  assumes r: "resolve env fs0 file = Inr p"
    and l: "lookup fs0 p = Some (File c)"
    and r': "resolve env (AList.update p (File c') fs0) file = Inr p'"
  shows "AList.update p' (File c) (AList.update p (File c') fs0) = fs0"
proof -
  from l have "lookup fs0 p \<noteq> Some Dir" by simp
  from resolve_update_File [OF this r, of c'] r' have "p' = p" by simp
  with update_back [OF l, of c'] show ?thesis by (simp del: update_last)
qed

text \<open>
  C9. For a plugin installed under a name (the metadata file of the name holds the
  record of that name), Disable then Enable both succeed and leave the record enabled,
  and Enable then Disable both succeed and leave the record disabled. On a plugin that
  was enabled, Disable then Enable gives back the very file system they started from,
  and so does Enable then Disable on a plugin that was disabled.
\<close>

theorem Disable_Enable_inverse:
  assumes "installed env (disk w) name m"
  shows "fst (Disable env name w) = None
       \<and> fst (Enable env name (snd (Disable env name w))) = None
       \<and> loadMetaByName env (disk (snd (Enable env name (snd (Disable env name w))))) name
           = Inr (m\<lparr>Enabled := True\<rparr>)
       \<and> fst (Enable env name w) = None
       \<and> fst (Disable env name (snd (Enable env name w))) = None
       \<and> loadMetaByName env (disk (snd (Disable env name (snd (Enable env name w))))) name
           = Inr (m\<lparr>Enabled := False\<rparr>)
       \<and> (Enabled m \<longrightarrow>
            disk (snd (Enable env name (snd (Disable env name w)))) = disk w)
       \<and> (\<not> Enabled m \<longrightarrow>
            disk (snd (Disable env name (snd (Enable env name w)))) = disk w)"
proof -
  let ?wd = "snd (Disable env name w)"
  let ?we = "snd (Enable env name w)"
  let ?off = "m\<lparr>Enabled := False\<rparr>"
  let ?on = "m\<lparr>Enabled := True\<rparr>"
  note d = Disable_installed [OF assms]
  note e = Enable_installed [OF assms]
  from d have id: "installed env (disk ?wd) name ?off" by blast
  from e have ie: "installed env (disk ?we) name ?on" by blast
  note de = Enable_installed [OF id]
  note ed = Disable_installed [OF ie]
  have mn: "metaName env ?off = metaName env m" "metaName env ?on = metaName env m"
    by (simp_all add: metaName_def)
  have a: "fst (Disable env name w) = None" using d by blast
  have b: "fst (Enable env name ?wd) = None" using de by blast
  have c: "loadMetaByName env (disk (snd (Enable env name ?wd))) name = Inr ?on"
    using de by (simp add: installed_def)
  have a': "fst (Enable env name w) = None" using e by blast
  have b': "fst (Disable env name ?we) = None" using ed by blast
  have c': "loadMetaByName env (disk (snd (Disable env name ?we))) name = Inr ?off"
    using ed by (simp add: installed_def)
  have rt: "disk (snd (Enable env name ?wd)) = disk w" if en: "Enabled m"
  proof -
    from d en obtain p where p: "resolve env (disk w) (metaName env m) = Inr p"
      "lookup (disk w) p = Some (File (MetaJSON name True))"
      "disk ?wd = AList.update p (File (MetaJSON name False)) (disk w)"
      by auto
    from de obtain p' where p': "resolve env (disk ?wd) (metaName env m) = Inr p'"
      "disk (snd (Enable env name ?wd)) = AList.update p' (File (MetaJSON name True)) (disk ?wd)"
      by (auto simp add: mn)
    from p' show ?thesis
      unfolding p(3) using flip_and_back [OF p(1) p(2)] by simp
  qed
  have rt': "disk (snd (Disable env name ?we)) = disk w" if dis: "\<not> Enabled m"
  proof -
    from e dis obtain p where p: "resolve env (disk w) (metaName env m) = Inr p"
      "lookup (disk w) p = Some (File (MetaJSON name False))"
      "disk ?we = AList.update p (File (MetaJSON name True)) (disk w)"
      by auto
    from ed obtain p' where p': "resolve env (disk ?we) (metaName env m) = Inr p'"
      "disk (snd (Disable env name ?we)) = AList.update p' (File (MetaJSON name False)) (disk ?we)"
      by (auto simp add: mn)
    from p' show ?thesis
      unfolding p(3) using flip_and_back [OF p(1) p(2)] by simp
  qed
  from a b c a' b' c' rt rt' show ?thesis by blast
qed

theorem Disable_Enable_inverse_witness:
  "installed exampleEnv (disk world1) ''foo'' \<lparr>Name = ''foo'', Enabled = True, sifFile = None\<rparr>
   \<and> fst (Disable exampleEnv ''foo'' world1) = None
   \<and> loadMetaByName exampleEnv (disk (snd (Disable exampleEnv ''foo'' world1))) ''foo''
       = Inr \<lparr>Name = ''foo'', Enabled = False, sifFile = None\<rparr>
   \<and> fst (Enable exampleEnv ''foo'' (snd (Disable exampleEnv ''foo'' world1))) = None
   \<and> loadMetaByName exampleEnv
        (disk (snd (Enable exampleEnv ''foo'' (snd (Disable exampleEnv ''foo'' world1))))) ''foo''
       = Inr \<lparr>Name = ''foo'', Enabled = True, sifFile = None\<rparr>
   \<and> disk (snd (Enable exampleEnv ''foo'' (snd (Disable exampleEnv ''foo'' world1))))
       = disk world1
   \<and> installed exampleEnv (disk world2) ''foo''
        \<lparr>Name = ''foo'', Enabled = False, sifFile = None\<rparr>
   \<and> loadMetaByName exampleEnv
        (disk (snd (Disable exampleEnv ''foo'' (snd (Enable exampleEnv ''foo'' world2))))) ''foo''
       = Inr \<lparr>Name = ''foo'', Enabled = False, sifFile = None\<rparr>
   \<and> disk (snd (Disable exampleEnv ''foo'' (snd (Enable exampleEnv ''foo'' world2))))
       = disk world2"
proof -
  have i1: "installed exampleEnv (disk world1) ''foo''
              \<lparr>Name = ''foo'', Enabled = True, sifFile = None\<rparr>"
    by code_simp
  have i2: "installed exampleEnv (disk world2) ''foo''
              \<lparr>Name = ''foo'', Enabled = False, sifFile = None\<rparr>"
    by code_simp
  have m: "loadMetaByName exampleEnv (disk (snd (Disable exampleEnv ''foo'' world1))) ''foo''
             = Inr \<lparr>Name = ''foo'', Enabled = False, sifFile = None\<rparr>"
    by code_simp
  show ?thesis
    using i1 i2 m Disable_Enable_inverse [OF i1] Disable_Enable_inverse [OF i2]
    by (simp add: installed_def)
qed


subsection \<open>Clean paths and their strings\<close>

lemma splitSlash_no_slash: "CHR ''/'' \<notin> set s \<Longrightarrow> splitSlash s = [s]"
  by (induction s) auto

lemma splitSlash_append_slash:
  "CHR ''/'' \<notin> set a \<Longrightarrow> splitSlash (a @ CHR ''/'' # b) = a # splitSlash b"
  by (induction a) auto

lemma splitSlash_slashed:
  "CHR ''/'' \<notin> set c0 \<Longrightarrow> \<forall>c\<in>set p. CHR ''/'' \<notin> set c \<Longrightarrow>
     splitSlash (c0 @ concat (map (\<lambda>c. CHR ''/'' # c) p)) = c0 # p"
proof (induction p arbitrary: c0)
  case Nil
  then show ?case by (simp add: splitSlash_no_slash)
next
  case (Cons c p)
  then show ?case by (simp add: splitSlash_append_slash)
qed

lemma splitSlash_pathString:
  "\<forall>c\<in>set p. CHR ''/'' \<notin> set c \<Longrightarrow> p \<noteq> [] \<Longrightarrow> splitSlash (pathString p) = [] # p"
  using splitSlash_slashed [of "[]" p] by (simp add: pathString_def)


lemma validName_no_slash: "validName c \<Longrightarrow> CHR ''/'' \<notin> set c"
  by (simp add: validName_def)

lemma step_valid: "validName c \<Longrightarrow> step cur c = cur @ [c]"
  by (simp add: step_def validName_def)

lemma resolve_pathString:
  assumes "\<forall>c\<in>set p. CHR ''/'' \<notin> set c"
  shows "resolve env fs0 (pathString p) = walk fs0 [] p"
proof (cases "p = []")
  case True
  then show ?thesis
    by (simp add: resolve_def pathString_def startDir_def lookup_def step_def)
next
  case False
  then obtain c p' where p: "p = c # p'" by (cases p) auto
  have ne: "pathString p \<noteq> []" and hd: "hd (pathString p) = CHR ''/''"
    by (simp_all add: pathString_def p)
  from assms False have "splitSlash (pathString p) = [] # p"
    by (rule splitSlash_pathString)
  with ne hd show ?thesis
    by (simp add: resolve_def startDir_def lookup_def step_def)
qed


lemma walk_valid:
  "list_all validName cs \<Longrightarrow> walk fs0 cur cs = Inr q \<Longrightarrow> q = cur @ cs"
proof (induction cs arbitrary: cur)
  case Nil
  then show ?case by simp
next
  case (Cons c cs)
  from Cons.prems have "walk fs0 (cur @ [c]) cs = Inr q"
    by (auto simp add: step_valid split: option.splits node.splits)
  with Cons.IH [of "cur @ [c]"] Cons.prems(1) show ?case by simp
qed













subsection \<open>What an installation leaves on the file system\<close>





subsection \<open>The entries of the listing\<close>









subsection \<open>Install, then List\<close>





subsection \<open>The operations keep the registry consistent\<close>

lemma splitSlash_elems: "c \<in> set (splitSlash s) \<Longrightarrow> CHR ''/'' \<notin> set c"
proof (induction s arbitrary: c)
  case Nil
  then show ?case by simp
next
  case (Cons x xs)
  show ?case
  proof (cases "x = CHR ''/''")
    case True
    with Cons show ?thesis by auto
  next
    case False
    obtain w ws where sp: "splitSlash xs = w # ws"
      by (cases "splitSlash xs") (cases xs, auto split: if_splits list.splits)
    with Cons.prems False have "c = x # w \<or> c \<in> set ws" by simp
    with Cons.IH [of w] Cons.IH [of c] sp False show ?thesis by auto
  qed
qed

lemma step_validNames:
  assumes "list_all validName cur" and "CHR ''/'' \<notin> set c"
  shows "list_all validName (step cur c)"
proof -
  have "list_all validName (butlast cur)"
    using assms(1) by (auto simp add: list_all_iff dest: in_set_butlastD)
  with assms show ?thesis
    by (simp add: step_def validName_def)
qed

lemma foldl_step_validNames:
  "list_all validName cur \<Longrightarrow> \<forall>c\<in>set cs. CHR ''/'' \<notin> set c \<Longrightarrow>
     list_all validName (foldl step cur cs)"
  by (induction cs arbitrary: cur) (simp_all add: step_validNames)

lemma JoinPath_validNames:
  "list_all validName dir \<Longrightarrow> list_all validName (JoinPath dir elems)"
  unfolding JoinPath_def by (rule foldl_step_validNames) (auto dest: splitSlash_elems)

text \<open>
  A path that \<^verbatim>\<open>filepath.Join\<close> builds under a clean directory resolves to the very
  names it was built from.
\<close>

lemma resolve_Join:
  assumes "list_all validName dir" and "resolve env fs0 (Join dir elems) = Inr p"
  shows "p = JoinPath dir elems"
proof -
  from assms(1) have v: "list_all validName (JoinPath dir elems)"
    by (rule JoinPath_validNames)
  then have "\<forall>c\<in>set (JoinPath dir elems). CHR ''/'' \<notin> set c"
    by (simp add: list_all_iff validName_no_slash)
  from resolve_pathString [OF this] assms(2)
  have "walk fs0 [] (JoinPath dir elems) = Inr p"
    by (simp add: Join_def)
  from walk_valid [OF v this] show ?thesis by simp
qed

lemma storedUnderOwnName_update:
  assumes "q \<noteq> []"
  shows "storedUnderOwnName env (AList.update p nd fs0) q =
           (if q = p
            then (case nd of
                    File (MetaJSON n e) \<Rightarrow>
                      metaName env \<lparr>Name = n, Enabled = e, sifFile = None\<rparr> = pathString p
                  | _ \<Rightarrow> True)
            else storedUnderOwnName env fs0 q)"
  using assms
  by (simp add: storedUnderOwnName_def lookup_update split: node.splits content.splits)

lemma registryConsistent_update:
  assumes "registryConsistent env fs0"
    and "case nd of
           File (MetaJSON n e) \<Rightarrow>
             metaName env \<lparr>Name = n, Enabled = e, sifFile = None\<rparr> = pathString p
         | _ \<Rightarrow> True"
  shows "registryConsistent env (AList.update p nd fs0)"
proof -
  have "storedUnderOwnName env (AList.update p nd fs0) q"
    if q: "q \<in> set (children (AList.update p nd fs0) (rootDir env))" for q
  proof (cases "q = p")
    case True
    from q have "q \<noteq> []" by (simp add: children_def)
    with True assms(2) show ?thesis
      by (simp add: storedUnderOwnName_update)
  next
    case False
    from q have ne: "q \<noteq> []" and "q \<in> fst ` set (AList.update p nd fs0)"
      and "butlast q = rootDir env"
      by (simp_all add: children_def)
    with False have "q \<in> set (children fs0 (rootDir env))"
      by (simp add: children_def dom_update)
    with assms(1) have "storedUnderOwnName env fs0 q"
      by (simp add: registryConsistent_def list_all_iff)
    with False ne show ?thesis
      by (simp add: storedUnderOwnName_update)
  qed
  then show ?thesis
    by (simp add: registryConsistent_def list_all_iff)
qed

lemma registryConsistent_delete:
  assumes "registryConsistent env fs0"
  shows "registryConsistent env (AList.delete p fs0)"
proof -
  have "storedUnderOwnName env (AList.delete p fs0) q"
    if q: "q \<in> set (children (AList.delete p fs0) (rootDir env))" for q
  proof -
    from q have ne: "q \<noteq> []" and k: "q \<in> fst ` set (AList.delete p fs0)"
      and b: "butlast q = rootDir env"
      by (simp_all add: children_def)
    from k have "q \<noteq> p"
      using delete_notin_dom [of p fs0] by auto
    moreover from k have "q \<in> fst ` set fs0"
      using dom_delete_subset [of p fs0] by auto
    with ne b have "q \<in> set (children fs0 (rootDir env))"
      by (simp add: children_def)
    with assms have "storedUnderOwnName env fs0 q"
      by (simp add: registryConsistent_def list_all_iff)
    ultimately show ?thesis
      using ne by (simp add: storedUnderOwnName_def lookup_def)
  qed
  then show ?thesis
    by (simp add: registryConsistent_def list_all_iff)
qed

lemma mkdirs_consistent:
  "mkdirs fs0 cur cs = Inr fs1 \<Longrightarrow> registryConsistent env fs0 \<Longrightarrow> registryConsistent env fs1"
proof (induction cs arbitrary: fs0 cur)
  case Nil
  then show ?case by simp
next
  case (Cons c cs)
  let ?p = "step cur c"
  show ?case
  proof (cases "lookup fs0 ?p")
    case None
    with Cons.prems(1) have m: "mkdirs (AList.update ?p Dir fs0) ?p cs = Inr fs1"
      by (simp add: Let_def)
    from Cons.prems(2) have "registryConsistent env (AList.update ?p Dir fs0)"
      by (rule registryConsistent_update) simp
    with Cons.IH [OF m] show ?thesis .
  next
    case (Some nd)
    with Cons.prems(1) have "mkdirs fs0 ?p cs = Inr fs1"
      by (cases nd) (simp_all add: Let_def)
    from Cons.IH [OF this Cons.prems(2)] show ?thesis .
  qed
qed

lemma os_MkdirAll_consistent:
  "os_MkdirAll env fs0 name = Inr fs1 \<Longrightarrow> registryConsistent env fs0 \<Longrightarrow>
     registryConsistent env fs1"
  by (auto simp add: os_MkdirAll_def split: if_splits sum.splits dest: mkdirs_consistent)

lemma os_WriteFile_consistent:
  assumes "os_WriteFile env fs0 name c = Inr fs1" and "registryConsistent env fs0"
    and "\<And>n e. c \<noteq> MetaJSON n e"
  shows "registryConsistent env fs1"
proof -
  from assms(1) obtain p where "fs1 = AList.update p (File c) fs0"
    by (auto simp add: os_WriteFile_Inr)
  moreover have "registryConsistent env (AList.update p (File c) fs0)"
    using assms(2) by (rule registryConsistent_update) (use assms(3) in \<open>cases c; simp\<close>)
  ultimately show ?thesis by simp
qed

lemma write_meta_consistent:
  assumes "cleanRoot env"
    and "os_WriteFile env fs0 (metaName env m) (MetaJSON (Name m) e) = Inr fs1"
    and "registryConsistent env fs0"
  shows "registryConsistent env fs1"
proof -
  from assms(1) have rv: "list_all validName (rootDir env)"
    by (simp add: cleanRoot_def list_all_iff)
  let ?elems = "[pathFromName (Name m) @ ''.meta'']"
  from assms(2) obtain p where p: "resolve env fs0 (Join (rootDir env) ?elems) = Inr p"
    "fs1 = AList.update p (File (MetaJSON (Name m) e)) fs0"
    by (auto simp add: os_WriteFile_Inr metaName_def)
  from resolve_Join [OF rv p(1)] have "pathString p = metaName env m"
    by (simp add: metaName_def Join_def)
  then have "metaName env \<lparr>Name = Name m, Enabled = e, sifFile = None\<rparr> = pathString p"
    by (simp add: metaName_def)
  with assms(3) have "registryConsistent env (AList.update p (File (MetaJSON (Name m) e)) fs0)"
    by (intro registryConsistent_update) simp_all
  with p(2) show ?thesis by simp
qed

lemma install_consistent:
  assumes "cleanRoot env" and "registryConsistent env fs0"
  shows "registryConsistent env (snd (install env m fs0))"
proof (cases "sifFile m")
  case None
  with assms(2) show ?thesis by (simp add: install_def)
next
  case (Some fimg)
  show ?thesis
  proof (cases "os_MkdirAll env fs0 (baseDir env m)")
    case (Inl e)
    with Some assms(2) show ?thesis by (simp add: install_def)
  next
    case s1: (Inr fs1)
    from os_MkdirAll_consistent [OF s1 assms(2)] have c1: "registryConsistent env fs1" .
    show ?thesis
    proof (cases "os_WriteFile env fs1 (imageName env m) (SIF fimg)")
      case (Inl e)
      with Some s1 c1 show ?thesis by (simp add: install_def)
    next
      case s2: (Inr fs2)
      from os_WriteFile_consistent [OF s2 c1] have c2: "registryConsistent env fs2" by simp
      show ?thesis
      proof (cases "os_WriteFile env fs2 (binaryName env m) (Bytes (pluginObject fimg))")
        case (Inl e)
        with Some s1 s2 c2 show ?thesis by (simp add: install_def)
      next
        case s3: (Inr fs3)
        from os_WriteFile_consistent [OF s3 c2] have c3: "registryConsistent env fs3" by simp
        show ?thesis
        proof (cases "os_WriteFile env fs3 (configName env m) (Bytes [])")
          case (Inl e)
          with Some s1 s2 s3 c3 show ?thesis by (simp add: install_def)
        next
          case s4: (Inr fs4)
          from os_WriteFile_consistent [OF s4 c3] have c4: "registryConsistent env fs4" by simp
          show ?thesis
          proof (cases "os_WriteFile env fs4 (metaName env m) (MetaJSON (Name m) (Enabled m))")
            case (Inl e)
            with Some s1 s2 s3 s4 c4 show ?thesis by (simp add: install_def)
          next
            case s5: (Inr fs5)
            from write_meta_consistent [OF assms(1) s5 c4] Some s1 s2 s3 s4 s5
            show ?thesis by (simp add: install_def)
          qed
        qed
      qed
    qed
  qed
qed

lemma save_consistent:
  assumes "cleanRoot env" and "registryConsistent env fs0"
  shows "registryConsistent env (snd (save env m fs0))"
proof (cases "os_WriteFile env fs0 (metaName env m) (MetaJSON (Name m) (Enabled m))")
  case (Inl e)
  with assms(2) show ?thesis by (simp add: save_def)
next
  case (Inr fs1)
  from write_meta_consistent [OF assms(1) Inr assms(2)] Inr show ?thesis
    by (simp add: save_def)
qed

lemma removeIfPresent_consistent:
  "removeIfPresent env fs0 name = Inr fs1 \<Longrightarrow> registryConsistent env fs0 \<Longrightarrow>
     registryConsistent env fs1"
  by (auto simp add: removeIfPresent_def os_Remove_def registryConsistent_delete
        split: sum.splits option.splits node.splits if_splits)

lemma uninstall_consistent:
  assumes "registryConsistent env fs0"
  shows "registryConsistent env (snd (uninstall env m fs0))"
  using assms
  by (auto simp add: uninstall_def split: sum.splits dest: removeIfPresent_consistent)

text \<open>
  The invariant holds of a registry without metadata files, and Install, Uninstall,
  Enable and Disable keep it, whatever they return.
\<close>

lemma registryConsistent_preserved:
  assumes "cleanRoot env" and "registryConsistent env (disk w)"
  shows "registryConsistent env (disk (snd (Install env sifPath name w)))"
    and "registryConsistent env (disk (snd (Uninstall env name w)))"
    and "registryConsistent env (disk (snd (Enable env name w)))"
    and "registryConsistent env (disk (snd (Disable env name w)))"
proof -
  show "registryConsistent env (disk (snd (Install env sifPath name w)))"
    using assms(2) install_consistent [OF assms]
    by (auto simp add: Install_def Let_def split: sum.splits prod.splits option.splits)
      (metis snd_conv)+
  show "registryConsistent env (disk (snd (Uninstall env name w)))"
    using assms(2) uninstall_consistent [OF assms(2)]
    by (auto simp add: Uninstall_def Let_def split: sum.splits prod.splits)
      (metis snd_conv)
  show "registryConsistent env (disk (snd (Enable env name w)))"
    using assms(2) save_consistent [OF assms]
    by (auto simp add: Enable_def enable_def Let_def split: sum.splits prod.splits)
      (metis snd_conv)
  show "registryConsistent env (disk (snd (Disable env name w)))"
    using assms(2) save_consistent [OF assms]
    by (auto simp add: Disable_def disable_def Let_def split: sum.splits prod.splits)
      (metis snd_conv)
qed


end
